theory Spec2Isabelle
  imports Main "HOL-Library.Word" "HOL-Library.AList"
begin

unbundle bit_operations_syntax

chapter \<open>The manifest builder of code-switch: scripts/generate-latest-json.py\<close>

text \<open>
  The script reads a version and an assets directory from the command line, looks for one
  build artifact per platform, hashes and measures each artifact it finds, compares the
  digest with an optional sidecar checksum file, extracts the release notes of the
  version from RELEASE\_NOTES.md and writes the manifest latest.json.

  The embedding follows the script function by function. What the script takes from its
  surroundings is a value of the record \<open>env\<close>: the command line, the file system as the
  script queries it, the clock. What the process leaves behind is a value of the record
  \<open>outcome\<close>: its exit status, what it printed, and the file it wrote. Text is a list
  of characters with code points below 256 (a \<open>string\<close> is a list of 8-bit characters, each
  read as the code point of its number), file content is a list of bytes.
\<close>

section \<open>Text: the methods of Python's str that the script calls\<close>

text \<open>
  Below 256, \<open>str.isspace\<close> holds of the code points 9 to 13 (tab, line feed, vertical
  tab, form feed, carriage return), 28 to 31 (the separators), 32 (space), 133 (next line)
  and 160 (no-break space). \<open>strip()\<close> and \<open>split()\<close> without argument work on these.
\<close>

definition is_space :: "char \<Rightarrow> bool" where
  "is_space c =
     (let n = (of_char c :: nat)
      in (9 \<le> n \<and> n \<le> 13) \<or> (28 \<le> n \<and> n \<le> 32) \<or> n = 133 \<or> n = 160)"

definition strip :: "string \<Rightarrow> string" where
  "strip s = rev (dropWhile is_space (rev (dropWhile is_space s)))"

text \<open>\<open>s.lstrip(chars)\<close> removes every leading character that occurs in \<open>chars\<close>.\<close>

definition lstrip_chars :: "string \<Rightarrow> string \<Rightarrow> string" where
  "lstrip_chars chars s = dropWhile (\<lambda>c. c \<in> set chars) s"

text \<open>\<open>s.split()\<close>: the maximal runs of characters that are not white space.\<close>

function split_ws :: "string \<Rightarrow> string list" where
  "split_ws s =
     (case dropWhile is_space s of
        [] \<Rightarrow> []
      | c # cs \<Rightarrow>
          takeWhile (\<lambda>x. \<not> is_space x) (c # cs)
            # split_ws (dropWhile (\<lambda>x. \<not> is_space x) (c # cs)))"
  by pat_completeness auto
termination
proof (relation "measure length")
  show "wf (measure length)" by simp
next
  fix s :: string and c cs
  assume a: "dropWhile is_space s = c # cs"
  have "\<not> is_space c"
    using a hd_dropWhile [of is_space s] by auto
  then have "length (dropWhile (\<lambda>x. \<not> is_space x) (c # cs)) \<le> length cs"
    by (simp add: length_dropWhile_le)
  also have "length cs < length (dropWhile is_space s)"
    by (simp add: a)
  also have "\<dots> \<le> length s"
    by (rule length_dropWhile_le)
  finally show "(dropWhile (\<lambda>x. \<not> is_space x) (c # cs), s) \<in> measure length"
    by simp
qed

declare split_ws.simps [simp del]

text \<open>\<open>s.split(sep)\<close> for a separator of one character, and \<open>sep.join(parts)\<close>.\<close>

primrec split_on :: "char \<Rightarrow> string \<Rightarrow> string list" where
  "split_on sep [] = [[]]"
| "split_on sep (c # cs) =
     (if c = sep then [] # split_on sep cs
      else (case split_on sep cs of
              [] \<Rightarrow> [[c]]
            | l # ls \<Rightarrow> (c # l) # ls))"

fun join :: "string \<Rightarrow> string list \<Rightarrow> string" where
  "join sep [] = []"
| "join sep [l] = l"
| "join sep (l # ls) = l @ sep @ join sep ls"

definition startswith :: "string \<Rightarrow> string \<Rightarrow> bool" where
  "startswith s p = (take (length p) s = p)"

text \<open>
  \<open>str.lower\<close>: below 256 the letters that change are \<open>A\<close> to \<open>Z\<close> and the capital
  letters 192 to 222 of Latin-1 (215, the multiplication sign, is none); each goes to the
  code point 32 higher.
\<close>

definition latin1_upper :: string where
  "latin1_upper =
     [CHR 0xC0, CHR 0xC1, CHR 0xC2, CHR 0xC3, CHR 0xC4, CHR 0xC5, CHR 0xC6, CHR 0xC7, CHR 0xC8, CHR 0xC9,
      CHR 0xCA, CHR 0xCB, CHR 0xCC, CHR 0xCD, CHR 0xCE, CHR 0xCF, CHR 0xD0, CHR 0xD1, CHR 0xD2, CHR 0xD3,
      CHR 0xD4, CHR 0xD5, CHR 0xD6, CHR 0xD8, CHR 0xD9, CHR 0xDA, CHR 0xDB, CHR 0xDC, CHR 0xDD, CHR 0xDE]"

definition latin1_lower :: string where
  "latin1_lower =
     [CHR 0xE0, CHR 0xE1, CHR 0xE2, CHR 0xE3, CHR 0xE4, CHR 0xE5, CHR 0xE6, CHR 0xE7, CHR 0xE8, CHR 0xE9,
      CHR 0xEA, CHR 0xEB, CHR 0xEC, CHR 0xED, CHR 0xEE, CHR 0xEF, CHR 0xF0, CHR 0xF1, CHR 0xF2, CHR 0xF3,
      CHR 0xF4, CHR 0xF5, CHR 0xF6, CHR 0xF8, CHR 0xF9, CHR 0xFA, CHR 0xFB, CHR 0xFC, CHR 0xFD, CHR 0xFE]"

definition lower_char :: "char \<Rightarrow> char" where
  "lower_char c =
     (case map_of (zip (''ABCDEFGHIJKLMNOPQRSTUVWXYZ'' @ latin1_upper)
                       (''abcdefghijklmnopqrstuvwxyz'' @ latin1_lower)) c of
        None \<Rightarrow> c
      | Some l \<Rightarrow> l)"

definition lower :: "string \<Rightarrow> string" where
  "lower s = map lower_char s"

text \<open>The decimal text of an integer, as an f-string prints it.\<close>

definition digit_char :: "nat \<Rightarrow> char" where
  "digit_char d = ''0123456789'' ! (d mod 10)"

function str_of_nat :: "nat \<Rightarrow> string" where
  "str_of_nat n = (if n < 10 then [digit_char n] else str_of_nat (n div 10) @ [digit_char n])"
  by pat_completeness auto
termination
  by (relation "measure id") auto

declare str_of_nat.simps [simp del]

definition str_of_int :: "int \<Rightarrow> string" where
  "str_of_int i = (if i < 0 then CHR ''-'' # str_of_nat (nat (- i)) else str_of_nat (nat i))"

definition newline :: char where
  "newline = CHR 0x0A"

section \<open>hashlib.sha256\<close>

text \<open>
  The hash object of \<open>hashlib.sha256()\<close> after FIPS 180-4: the chaining value, the bytes
  not yet hashed (fewer than one block of 64) and the number of bytes fed so far.
  \<open>update\<close> hashes every complete block; \<open>hexdigest\<close> pads what is pending and prints the
  final chaining value as 64 lowercase hexadecimal digits.
\<close>

type_synonym byte = "8 word"
type_synonym word32 = "32 word"

datatype hash_state =
  HashState word32 word32 word32 word32 word32 word32 word32 word32

definition sha256_K :: "word32 list" where
  "sha256_K = concat
    [[0x428a2f98, 0x71374491, 0xb5c0fbcf, 0xe9b5dba5, 0x3956c25b, 0x59f111f1, 0x923f82a4, 0xab1c5ed5],
     [0xd807aa98, 0x12835b01, 0x243185be, 0x550c7dc3, 0x72be5d74, 0x80deb1fe, 0x9bdc06a7, 0xc19bf174],
     [0xe49b69c1, 0xefbe4786, 0x0fc19dc6, 0x240ca1cc, 0x2de92c6f, 0x4a7484aa, 0x5cb0a9dc, 0x76f988da],
     [0x983e5152, 0xa831c66d, 0xb00327c8, 0xbf597fc7, 0xc6e00bf3, 0xd5a79147, 0x06ca6351, 0x14292967],
     [0x27b70a85, 0x2e1b2138, 0x4d2c6dfc, 0x53380d13, 0x650a7354, 0x766a0abb, 0x81c2c92e, 0x92722c85],
     [0xa2bfe8a1, 0xa81a664b, 0xc24b8b70, 0xc76c51a3, 0xd192e819, 0xd6990624, 0xf40e3585, 0x106aa070],
     [0x19a4c116, 0x1e376c08, 0x2748774c, 0x34b0bcb5, 0x391c0cb3, 0x4ed8aa4a, 0x5b9cca4f, 0x682e6ff3],
     [0x748f82ee, 0x78a5636f, 0x84c87814, 0x8cc70208, 0x90befffa, 0xa4506ceb, 0xbef9a3f7, 0xc67178f2]]"

definition sha256_H0 :: hash_state where
  "sha256_H0 = HashState 0x6a09e667 0xbb67ae85 0x3c6ef372 0xa54ff53a
                         0x510e527f 0x9b05688c 0x1f83d9ab 0x5be0cd19"

definition ch :: "word32 \<Rightarrow> word32 \<Rightarrow> word32 \<Rightarrow> word32" where
  "ch x y z = (x AND y) XOR (NOT x AND z)"

definition maj :: "word32 \<Rightarrow> word32 \<Rightarrow> word32 \<Rightarrow> word32" where
  "maj x y z = (x AND y) XOR (x AND z) XOR (y AND z)"

definition bsig0 :: "word32 \<Rightarrow> word32" where
  "bsig0 x = word_rotr 2 x XOR word_rotr 13 x XOR word_rotr 22 x"

definition bsig1 :: "word32 \<Rightarrow> word32" where
  "bsig1 x = word_rotr 6 x XOR word_rotr 11 x XOR word_rotr 25 x"

definition ssig0 :: "word32 \<Rightarrow> word32" where
  "ssig0 x = word_rotr 7 x XOR word_rotr 18 x XOR drop_bit 3 x"

definition ssig1 :: "word32 \<Rightarrow> word32" where
  "ssig1 x = word_rotr 17 x XOR word_rotr 19 x XOR drop_bit 10 x"

text \<open>The sixteen big-endian words of a block, extended to the 64 words of the schedule.\<close>

fun be_words :: "byte list \<Rightarrow> word32 list" where
  "be_words (b0 # b1 # b2 # b3 # bs) =
     (push_bit 24 (ucast b0) OR push_bit 16 (ucast b1) OR push_bit 8 (ucast b2) OR ucast b3)
       # be_words bs"
| "be_words _ = []"

fun extend_schedule :: "nat \<Rightarrow> word32 list \<Rightarrow> word32 list" where
  "extend_schedule 0 w = w"
| "extend_schedule (Suc n) w =
     (let t = length w in
      extend_schedule n
        (w @ [ssig1 (w ! (t - 2)) + w ! (t - 7) + ssig0 (w ! (t - 15)) + w ! (t - 16)]))"

definition schedule :: "byte list \<Rightarrow> word32 list" where
  "schedule block = extend_schedule 48 (be_words block)"

fun sha_round :: "hash_state \<Rightarrow> word32 \<times> word32 \<Rightarrow> hash_state" where
  "sha_round (HashState a b c d e f g h) (k, w) =
     (let t1 = h + bsig1 e + ch e f g + k + w;
          t2 = bsig0 a + maj a b c
      in HashState (t1 + t2) a b c (d + t1) e f g)"

fun add_state :: "hash_state \<Rightarrow> hash_state \<Rightarrow> hash_state" where
  "add_state (HashState a b c d e f g h) (HashState a' b' c' d' e' f' g' h') =
     HashState (a + a') (b + b') (c + c') (d + d') (e + e') (f + f') (g + g') (h + h')"

definition compress :: "hash_state \<Rightarrow> byte list \<Rightarrow> hash_state" where
  "compress hs block = add_state hs (foldl sha_round hs (zip sha256_K (schedule block)))"

text \<open>Hash the complete blocks of \<open>bs\<close>; the rest (fewer than 64 bytes) stays pending.\<close>

function absorb :: "hash_state \<Rightarrow> byte list \<Rightarrow> hash_state \<times> byte list" where
  "absorb hs bs =
     (if length bs < 64 then (hs, bs)
      else absorb (compress hs (take 64 bs)) (drop 64 bs))"
  by pat_completeness auto
termination
  by (relation "measure (\<lambda>(hs, bs). length bs)") auto

declare absorb.simps [simp del]

definition be32_bytes :: "word32 \<Rightarrow> byte list" where
  "be32_bytes w = [ucast (drop_bit 24 w), ucast (drop_bit 16 w), ucast (drop_bit 8 w), ucast w]"

definition be64_bytes :: "64 word \<Rightarrow> byte list" where
  "be64_bytes w = map (\<lambda>i. ucast (drop_bit (8 * i) w)) [7, 6, 5, 4, 3, 2, 1, 0]"

text \<open>
  The padding of a message of \<open>l\<close> bytes: the byte 0x80, zero bytes up to 56 modulo 64,
  and the length in bits as a 64-bit big-endian number.
\<close>

definition padding :: "nat \<Rightarrow> byte list" where
  "padding l = 0x80 # replicate ((119 - l mod 64) mod 64) 0 @ be64_bytes (of_nat (8 * l))"

record hasher =
  chain :: hash_state
  pending :: "byte list"
  fed :: nat

definition sha256_new :: hasher where
  "sha256_new = \<lparr>chain = sha256_H0, pending = [], fed = 0\<rparr>"

definition update :: "hasher \<Rightarrow> byte list \<Rightarrow> hasher" where
  "update s data =
     (case absorb (chain s) (pending s @ data) of
        (hs, rest) \<Rightarrow> \<lparr>chain = hs, pending = rest, fed = fed s + length data\<rparr>)"

definition hex_digit :: "nat \<Rightarrow> char" where
  "hex_digit n = ''0123456789abcdef'' ! (n mod 16)"

definition hex_byte :: "byte \<Rightarrow> string" where
  "hex_byte b = [hex_digit (unat b div 16), hex_digit (unat b mod 16)]"

fun state_bytes :: "hash_state \<Rightarrow> byte list" where
  "state_bytes (HashState a b c d e f g h) =
     concat (map be32_bytes [a, b, c, d, e, f, g, h])"

definition hexdigest :: "hasher \<Rightarrow> string" where
  "hexdigest s =
     concat (map hex_byte
       (state_bytes (fst (absorb (chain s) (pending s @ padding (fed s))))))"

text \<open>
  Hashing a whole byte string at once, \<open>hashlib.sha256(data).hexdigest()\<close>, and the
  same digest written as in the standard: pad the message, cut it into blocks of 64
  bytes, fold the compression function over the blocks.
\<close>

definition sha256_at_once :: "byte list \<Rightarrow> string" where
  "sha256_at_once content = hexdigest (update sha256_new content)"

function chop64 :: "byte list \<Rightarrow> byte list list" where
  "chop64 bs = (if length bs < 64 then [] else take 64 bs # chop64 (drop 64 bs))"
  by pat_completeness auto
termination
  by (relation "measure length") auto

declare chop64.simps [simp del]

definition sha256_fips :: "byte list \<Rightarrow> string" where
  "sha256_fips msg =
     concat (map hex_byte (state_bytes
       (foldl compress sha256_H0 (chop64 (msg @ padding (length msg))))))"

definition is_lower_hex :: "char \<Rightarrow> bool" where
  "is_lower_hex c = (c \<in> set ''0123456789abcdef'')"

section \<open>compute\_sha256 and get\_file\_size (lines 16 to 27)\<close>

text \<open>
  \<open>compute_sha256\<close> opens the file and feeds the hash object with the blocks that
  \<open>f.read(4096)\<close> returns, until it returns the empty block. \<open>hash_blocks\<close> is that loop
  over what is left of the file; the file is given by its content.
\<close>

function hash_blocks :: "hasher \<Rightarrow> byte list \<Rightarrow> hasher" where
  "hash_blocks sha256_hash rest =
     (let byte_block = take 4096 rest in
      if byte_block = [] then sha256_hash
      else hash_blocks (update sha256_hash byte_block) (drop 4096 rest))"
  by pat_completeness auto
termination
  by (relation "measure (\<lambda>(s, rest). length rest)") auto

declare hash_blocks.simps [simp del]

definition compute_sha256 :: "byte list \<Rightarrow> string" where
  "compute_sha256 content = hexdigest (hash_blocks sha256_new content)"

text \<open>\<open>st_size\<close> of a regular file is the number of its bytes.\<close>

definition get_file_size :: "byte list \<Rightarrow> int" where
  "get_file_size content = int (length content)"

section \<open>Errors and paths\<close>

text \<open>
  The exceptions that the statements of the script can raise. None of them is caught, so
  each ends the process with a traceback and the exit status 1.
\<close>

datatype py_error = ValueError | IndexError | ReError | NotImplementedError

text \<open>
  A file of the assets directory is named by its last path component, as the directory
  lists it. \<open>path_suffix\<close> and \<open>with_suffix\<close> are \<open>PurePath.suffix\<close> and
  \<open>PurePath.with_suffix\<close> of pathlib (POSIX flavour) on that component: the suffix starts at
  the last dot, unless that dot is the first or the last character of the name.
  \<open>rfind\<close> is \<open>str.rfind\<close> for one character, -1 when it does not occur.
\<close>

text \<open>
  A \<open>Path\<close> made from a text is given by that text; \<open>path_str\<close> is \<open>str()\<close> of it, as an
  f-string prints it: a root of one slash (of two when the text starts with exactly two),
  the components that are neither empty nor a single dot, joined by slashes, and a dot
  when nothing is left.
\<close>

definition path_str :: "string \<Rightarrow> string" where
  "path_str p =
     (let slashes = length (takeWhile (\<lambda>c. c = CHR ''/'') p);
          root = (if slashes = 0 then [] else if slashes = 2 then ''//'' else ''/'');
          parts = filter (\<lambda>x. x \<noteq> [] \<and> x \<noteq> ''.'')
                    (split_on (CHR ''/'') (dropWhile (\<lambda>c. c = CHR ''/'') p));
          s = root @ join ''/'' parts
      in if s = [] then ''.'' else s)"

definition rfind :: "char \<Rightarrow> string \<Rightarrow> int" where
  "rfind c s =
     (if c \<in> set s then int (length s) - 1 - int (length (takeWhile (\<lambda>x. x \<noteq> c) (rev s)))
      else - 1)"

definition path_suffix :: "string \<Rightarrow> string" where
  "path_suffix name =
     (let i = rfind (CHR ''.'') name in
      if 0 < i \<and> i < int (length name) - 1 then drop (nat i) name else [])"

definition with_suffix :: "string \<Rightarrow> string \<Rightarrow> py_error + string" where
  "with_suffix name suffix =
     (if CHR ''/'' \<in> set suffix then Inl ValueError
      else if (suffix \<noteq> [] \<and> \<not> startswith suffix ''.'') \<or> suffix = ''.'' then Inl ValueError
      else if name = [] then Inl ValueError
      else (let old_suffix = path_suffix name in
            if old_suffix = [] then Inr (name @ suffix)
            else Inr (take (length name - length old_suffix) name @ suffix)))"

section \<open>The surroundings of a run and what it leaves behind\<close>

text \<open>
  \<^item> \<open>argv\<close> is \<open>sys.argv\<close>, the script's own name first.
  \<^item> \<open>path_exists p\<close> is \<open>Path(p).exists()\<close>.
  \<^item> \<open>glob d pat\<close> is \<open>list(Path(d).glob(pat))\<close> for a pattern that \<open>glob\<close> accepts, each
    match given by its name, in the order of the directory listing. How a pattern selects
    names is pathlib's matter and is left open: every statement below holds for any such
    function. The patterns that \<open>glob\<close> refuses are those of \<open>glob_error\<close> below.
  \<^item> \<open>file_bytes d n\<close> is the content of the file \<open>n\<close> of the directory \<open>d\<close>.
  \<^item> \<open>file_text d n\<close> is the text of the file \<open>n\<close> of \<open>d\<close>, \<open>None\<close> when there is no
    such file (\<open>exists()\<close> is false).
  \<^item> \<open>release_notes\<close> is the text of RELEASE\_NOTES.md in the working directory, \<open>None\<close>
    when the file does not exist.
  \<^item> \<open>utc_now\<close> is \<open>datetime.now(timezone.utc).isoformat()\<close>.
  \<^item> \<open>re_other\<close> is the result of \<open>re.search\<close> for a version text that holds a
    metacharacter outside the fragment of regular expressions modelled below; it is
    left open as well.
  Reading a file that exists and writing the output file are taken to succeed.
\<close>

record env =
  argv :: "string list"
  path_exists :: "string \<Rightarrow> bool"
  glob :: "string \<Rightarrow> string \<Rightarrow> string list"
  file_bytes :: "string \<Rightarrow> string \<Rightarrow> byte list"
  file_text :: "string \<Rightarrow> string \<Rightarrow> string option"
  release_notes :: "string option"
  utc_now :: string
  re_other :: "string \<Rightarrow> string \<Rightarrow> py_error + string option"

record asset_record =
  url :: string
  sha256 :: string
  fsize :: int

record manifest =
  version :: string
  pub_date :: string
  notes_text :: string
  platforms :: "(string \<times> asset_record) list"

record platform_config =
  patterns :: "string list"
  filename :: string

text \<open>
  One call of \<open>print\<close>: a line of text, or the manifest printed as JSON. The document
  written by \<open>json.dump\<close> is identified with the manifest it serialises, a dictionary
  with the association list of its items in insertion order.
\<close>

datatype printed = Print string | PrintJson manifest

record outcome =
  exit_status :: nat
  stdout :: "printed list"
  written :: "(string \<times> manifest) option"

section \<open>find\_asset (lines 30 to 36)\<close>

text \<open>
  \<open>Path.glob\<close> raises before it lists anything (pathlib of Python 3.11): ValueError for
  the empty pattern, NotImplementedError for a pattern that starts with a slash, and
  ValueError for a pattern with a component that holds \<open>**\<close> and is not \<open>**\<close> itself.
  The script catches none of them.
\<close>

fun has_two_stars :: "string \<Rightarrow> bool" where
  "has_two_stars (a # b # cs) = ((a = CHR ''*'' \<and> b = CHR ''*'') \<or> has_two_stars (b # cs))"
| "has_two_stars cs = False"

definition glob_error :: "string \<Rightarrow> py_error option" where
  "glob_error pattern =
     (if pattern = [] then Some ValueError
      else if hd pattern = CHR ''/'' then Some NotImplementedError
      else if list_ex (\<lambda>part. part \<noteq> ''**'' \<and> has_two_stars part)
                (split_on (CHR ''/'') pattern)
           then Some ValueError
      else None)"

fun find_asset :: "env \<Rightarrow> string \<Rightarrow> string list \<Rightarrow> py_error + string option" where
  "find_asset e assets_dir [] = Inr None"
| "find_asset e assets_dir (pattern # rest) =
     (case glob_error pattern of
        Some err \<Rightarrow> Inl err
      | None \<Rightarrow>
          (case glob e assets_dir pattern of
             [] \<Rightarrow> find_asset e assets_dir rest
           | m # ms \<Rightarrow> Inr (Some m)))"

section \<open>main: the platform table and the loop over it (lines 56 to 114)\<close>

definition platform_configs :: "string \<Rightarrow> (string \<times> platform_config) list" where
  "platform_configs version_clean =
     [(''windows-x86_64'',
        \<lparr>patterns = [''CodeSwitch-v'' @ version_clean @ ''.exe'', ''CodeSwitch.exe''],
         filename = ''CodeSwitch-v'' @ version_clean @ ''.exe''\<rparr>),
      (''windows-x86_64-installer'',
        \<lparr>patterns = [''CodeSwitch-v'' @ version_clean @ ''-amd64-installer.exe'',
                     ''CodeSwitch-amd64-installer.exe''],
         filename = ''CodeSwitch-v'' @ version_clean @ ''-amd64-installer.exe''\<rparr>),
      (''darwin-aarch64'',
        \<lparr>patterns = [''CodeSwitch-v'' @ version_clean @ ''-macos-arm64.zip'',
                     ''codeswitch-macos-arm64.zip''],
         filename = ''CodeSwitch-v'' @ version_clean @ ''-macos-arm64.zip''\<rparr>),
      (''darwin-x86_64'',
        \<lparr>patterns = [''CodeSwitch-v'' @ version_clean @ ''-macos-amd64.zip'',
                     ''codeswitch-macos-amd64.zip''],
         filename = ''CodeSwitch-v'' @ version_clean @ ''-macos-amd64.zip''\<rparr>),
      (''linux-x86_64'',
        \<lparr>patterns = [''CodeSwitch-v'' @ version_clean @ ''.AppImage'', ''CodeSwitch.AppImage''],
         filename = ''CodeSwitch-v'' @ version_clean @ ''.AppImage''\<rparr>)]"

text \<open>The lines that the loop prints, and the download URL prefix of line 59.\<close>

definition missing_line :: "string \<Rightarrow> printed" where
  "missing_line platform_key = Print (''Warning: No asset found for '' @ platform_key)"

definition mismatch_lines :: "string \<Rightarrow> string \<Rightarrow> string \<Rightarrow> printed list" where
  "mismatch_lines asset_name sha file_sha256 =
     [Print (''Warning: SHA256 mismatch for '' @ asset_name),
      Print (''  Computed: '' @ sha),
      Print (''  From file: '' @ file_sha256)]"

definition found_line :: "string \<Rightarrow> string \<Rightarrow> int \<Rightarrow> printed" where
  "found_line platform_key asset_name sz =
     Print (''Found '' @ platform_key @ '': '' @ asset_name @ '' ('' @ str_of_int sz @ '' bytes)'')"

definition base_url_of :: "string \<Rightarrow> string" where
  "base_url_of version_clean =
     ''https://github.com/Rogers-F/code-switch-R/releases/download/v'' @ version_clean"

text \<open>
  Lines 95 to 105: the sidecar file of an asset and the comparison of its first token with
  the computed digest. The result is what these lines print, or the exception they raise.
\<close>

definition check_sidecar :: "env \<Rightarrow> string \<Rightarrow> string \<Rightarrow> string \<Rightarrow> py_error + printed list" where
  "check_sidecar e assets_dir asset_name sha =
     (case with_suffix asset_name (path_suffix asset_name @ ''.sha256'') of
        Inl err \<Rightarrow> Inl err
      | Inr sha256_file \<Rightarrow>
          (case file_text e assets_dir sha256_file of
             None \<Rightarrow> Inr []
           | Some text \<Rightarrow>
               (let content = strip text in
                if content \<noteq> [] then
                  (case split_ws content of
                     [] \<Rightarrow> Inl IndexError
                   | file_sha256 # toks \<Rightarrow>
                       if lower file_sha256 \<noteq> lower sha then
                         Inr (mismatch_lines asset_name sha file_sha256)
                       else Inr [])
                else Inr [])))"

text \<open>
  Lines 88 to 114, the body of the loop for one platform: what it prints, and the entry it
  stores in \<open>platforms\<close> (none when no asset is found).
\<close>

definition platform_step ::
  "env \<Rightarrow> string \<Rightarrow> string \<Rightarrow> string \<Rightarrow> platform_config
     \<Rightarrow> py_error + (printed list \<times> asset_record option)" where
  "platform_step e assets_dir base_url platform_key config =
     (case find_asset e assets_dir (patterns config) of
        Inl err \<Rightarrow> Inl err
      | Inr None \<Rightarrow> Inr ([missing_line platform_key], None)
      | Inr (Some asset_name) \<Rightarrow>
          (let sha = compute_sha256 (file_bytes e assets_dir asset_name);
               sz = get_file_size (file_bytes e assets_dir asset_name)
           in case check_sidecar e assets_dir asset_name sha of
                Inl err \<Rightarrow> Inl err
              | Inr warnings \<Rightarrow>
                  Inr (warnings @ [found_line platform_key asset_name sz],
                       Some \<lparr>url = base_url @ ''/'' @ filename config, sha256 = sha,
                              fsize = sz\<rparr>)))"

text \<open>
  The loop: \<open>out\<close> is what has been printed so far and \<open>acc\<close> the dictionary
  \<open>platforms\<close>. An exception leaves the loop with what was printed before it.
\<close>

fun scan_platforms ::
  "env \<Rightarrow> string \<Rightarrow> string \<Rightarrow> (string \<times> platform_config) list \<Rightarrow> printed list
     \<Rightarrow> (string \<times> asset_record) list
     \<Rightarrow> printed list \<times> (py_error + (string \<times> asset_record) list)" where
  "scan_platforms e assets_dir base_url [] out acc = (out, Inr acc)"
| "scan_platforms e assets_dir base_url ((platform_key, config) # rest) out acc =
     (case platform_step e assets_dir base_url platform_key config of
        Inl err \<Rightarrow> (out, Inl err)
      | Inr (lines, entry) \<Rightarrow>
          scan_platforms e assets_dir base_url rest (out @ lines)
            (case entry of
               None \<Rightarrow> acc
             | Some r \<Rightarrow> AList.update platform_key r acc))"

section \<open>main: the release notes (lines 117 to 130)\<close>

text \<open>
  The pattern is \<open># Code Switch v\<close>, then the version as it stands (it is not escaped),
  then \<open>.*?(?=# Code Switch v|\Z)\<close>, searched with \<open>re.DOTALL\<close>. In the version, a dot
  matches any character, parentheses group (the pattern does not compile when they are
  not balanced), and a character that is no metacharacter matches itself. A version that
  holds one of the other metacharacters is outside this fragment.
\<close>

datatype re_item = Lit char | AnyChar

definition heading_prefix :: string where
  "heading_prefix = ''# Code Switch v''"

definition re_metachars :: string where
  "re_metachars = [CHR 0x5C, CHR ''^'', CHR ''$'', CHR ''*'', CHR ''+'', CHR ''?'',
                   CHR ''{'', CHR ''}'', CHR ''['', CHR '']'', CHR ''|'']"

fun balanced :: "string \<Rightarrow> nat \<Rightarrow> bool" where
  "balanced [] depth = (depth = 0)"
| "balanced (c # cs) depth =
     (if c = CHR ''('' then balanced cs (Suc depth)
      else if c = CHR '')'' then (0 < depth \<and> balanced cs (depth - 1))
      else balanced cs depth)"

definition version_items :: "string \<Rightarrow> re_item list" where
  "version_items v =
     map (\<lambda>c. if c = CHR ''.'' then AnyChar else Lit c)
         (filter (\<lambda>c. c \<noteq> CHR ''('' \<and> c \<noteq> CHR '')'') v)"

text \<open>Match the items at the start of the text; the result is the text after them.\<close>

fun match_items :: "re_item list \<Rightarrow> string \<Rightarrow> string option" where
  "match_items [] s = Some s"
| "match_items (i # items) [] = None"
| "match_items (Lit c # items) (x # xs) = (if x = c then match_items items xs else None)"
| "match_items (AnyChar # items) (x # xs) = match_items items xs"

text \<open>
  What the reluctant \<open>.*?\<close> takes: the characters up to the first position where the
  lookahead holds, that is where the next heading starts or the text ends.
\<close>

fun lazy_body :: "string \<Rightarrow> string" where
  "lazy_body [] = []"
| "lazy_body (c # cs) = (if startswith (c # cs) heading_prefix then [] else c # lazy_body cs)"

text \<open>\<open>re.search\<close>: the match at the leftmost position where there is one, as \<open>group(0)\<close>.\<close>

fun search_section :: "re_item list \<Rightarrow> string \<Rightarrow> string option" where
  "search_section items [] =
     (case match_items items [] of
        None \<Rightarrow> None
      | Some rest \<Rightarrow> Some (lazy_body rest))"
| "search_section items (c # cs) =
     (case match_items items (c # cs) of
        None \<Rightarrow> search_section items cs
      | Some rest \<Rightarrow> Some (take (length items) (c # cs) @ lazy_body rest))"

definition re_search_notes :: "env \<Rightarrow> string \<Rightarrow> string \<Rightarrow> py_error + string option" where
  "re_search_notes e version_clean content =
     (if \<exists>c \<in> set version_clean. c \<in> set re_metachars then re_other e version_clean content
      else if \<not> balanced version_clean 0 then Inl ReError
      else Inr (search_section (map Lit heading_prefix @ version_items version_clean) content))"

definition extract_notes :: "env \<Rightarrow> string \<Rightarrow> py_error + string" where
  "extract_notes e version_clean =
     (case release_notes e of
        None \<Rightarrow> Inr []
      | Some content \<Rightarrow>
          (case re_search_notes e version_clean content of
             Inl err \<Rightarrow> Inl err
           | Inr None \<Rightarrow> Inr []
           | Inr (Some group0) \<Rightarrow>
               (let stripped = strip group0 in
                case split_on newline stripped of
                  [] \<Rightarrow> Inr stripped
                | l # ls \<Rightarrow>
                    if startswith l ''# '' then Inr (strip (join [newline] ls))
                    else Inr stripped)))"

section \<open>main (lines 39 to 145)\<close>

definition usage :: "printed list" where
  "usage =
     [Print ''Usage: generate-latest-json.py <version> <assets_dir> [output_file]'',
      Print ''  version: Version string (e.g., v2.6.23)'',
      Print ''  assets_dir: Directory containing release assets'',
      Print ''  output_file: Output file path (default: latest.json)'']"

text \<open>An exception that nothing catches: what was printed stays, no file is written.\<close>

definition uncaught :: "printed list \<Rightarrow> outcome" where
  "uncaught out = \<lparr>exit_status = 1, stdout = out, written = None\<rparr>"

definition main :: "env \<Rightarrow> outcome" where
  "main e =
     (if length (argv e) < 3 then \<lparr>exit_status = 1, stdout = usage, written = None\<rparr>
      else
        (let version_arg = argv e ! 1;
             assets_dir = argv e ! 2;
             output_file = (if 3 < length (argv e) then argv e ! 3 else ''latest.json'')
         in if \<not> path_exists e assets_dir then
              \<lparr>exit_status = 1,
               stdout = [Print (''Error: Assets directory not found: '' @ path_str assets_dir)],
               written = None\<rparr>
            else
              (let version_clean = lstrip_chars ''v'' version_arg;
                   base_url = base_url_of version_clean
               in case scan_platforms e assets_dir base_url (platform_configs version_clean)
                         [] [] of
                    (out, Inl err) \<Rightarrow> uncaught out
                  | (out, Inr found) \<Rightarrow>
                      (case extract_notes e version_clean of
                         Inl err \<Rightarrow> uncaught out
                       | Inr release_text \<Rightarrow>
                           (let m = \<lparr>version = ''v'' @ version_clean,
                                     pub_date = utc_now e,
                                     notes_text = release_text,
                                     platforms = found\<rparr>
                            in \<lparr>exit_status = 0,
                                stdout = out @ [Print (newline # ''Generated ''
                                                       @ path_str output_file @ '':''),
                                                PrintJson m],
                                written = Some (path_str output_file, m)\<rparr>)))))"

section \<open>File names and the runs used as examples\<close>

text \<open>
  The name of a directory entry is not empty and holds no path separator. \<open>assets_named\<close>
  says of the platforms of a table that \<open>glob\<close> accepts the patterns that \<open>find_asset\<close>
  tries, and that every asset it selects has such a name.
\<close>

definition valid_name :: "string \<Rightarrow> bool" where
  "valid_name n = (n \<noteq> [] \<and> CHR ''/'' \<notin> set n)"

definition assets_named :: "env \<Rightarrow> string \<Rightarrow> (string \<times> platform_config) list \<Rightarrow> bool" where
  "assets_named e assets_dir configs =
     list_all (\<lambda>(platform_key, config).
                 case find_asset e assets_dir (patterns config) of
                   Inl err \<Rightarrow> False
                 | Inr None \<Rightarrow> True
                 | Inr (Some n) \<Rightarrow> valid_name n)
              configs"

text \<open>
  The run used as an example: the assets directory holds the one file
  CodeSwitch-v2.6.23.AppImage with the content \<open>abc\<close>, its sidecar file is \<open>sidecar\<close>
  (\<open>None\<close> when there is none), and RELEASE\_NOTES.md has the sections of the versions
  2.6.23 and 2.6.22.
\<close>

definition example_notes :: string where
  "example_notes =
     ''# Code Switch v2.6.23'' @ [newline] @ ''Foo'' @ [newline]
       @ ''# Code Switch v2.6.22'' @ [newline] @ ''Bar''"

definition example_run :: "string \<Rightarrow> string option \<Rightarrow> env" where
  "example_run version_arg sidecar =
     \<lparr>argv = [''generate-latest-json.py'', version_arg, ''release-assets''],
      path_exists = (\<lambda>p. p = ''release-assets''),
      glob = (\<lambda>d pat. if pat = ''CodeSwitch-v2.6.23.AppImage''
                       then [''CodeSwitch-v2.6.23.AppImage''] else []),
      file_bytes = (\<lambda>d n. [0x61, 0x62, 0x63]),
      file_text = (\<lambda>d n. if n = ''CodeSwitch-v2.6.23.AppImage.sha256'' then sidecar else None),
      release_notes = Some example_notes,
      utc_now = ''2026-01-01T00:00:00+00:00'',
      re_other = (\<lambda>v c. Inr None)\<rparr>"

definition linux_config :: platform_config where
  "linux_config = \<lparr>patterns = [''CodeSwitch-v2.6.23.AppImage'', ''CodeSwitch.AppImage''],
                    filename = ''CodeSwitch-v2.6.23.AppImage''\<rparr>"

definition linux_entry :: asset_record where
  "linux_entry = \<lparr>url = base_url_of ''2.6.23'' @ ''/CodeSwitch-v2.6.23.AppImage'',
                   sha256 = compute_sha256 [0x61, 0x62, 0x63], fsize = 3\<rparr>"

text \<open>A printed line that is a warning.\<close>

definition is_warning :: "printed \<Rightarrow> bool" where
  "is_warning line = (case line of Print s \<Rightarrow> startswith s ''Warning'' | PrintJson m \<Rightarrow> False)"

text \<open>
  A sidecar file that holds white space only; the surroundings \<open>e\<close> without the file
  \<open>f\<close> of the directory \<open>d\<close>; and release notes with the sections of the versions
  2.6.23 and 2.6.2.
\<close>

definition blank :: string where
  "blank = [CHR '' '', newline]"

definition without_file :: "env \<Rightarrow> string \<Rightarrow> string \<Rightarrow> env" where
  "without_file e d f =
     e\<lparr>file_text := (\<lambda>d' f'. if d' = d \<and> f' = f then None else file_text e d' f')\<rparr>"

definition prefix_notes :: string where
  "prefix_notes =
     ''# Code Switch v2.6.23'' @ [newline] @ ''Foo'' @ [newline]
       @ ''# Code Switch v2.6.2'' @ [newline] @ ''Bar''"

chapter \<open>Properties\<close>

section \<open>The hash object\<close>

lemma absorb_short: "length bs < 64 \<Longrightarrow> absorb hs bs = (hs, bs)"
  by (subst absorb.simps) simp

lemma absorb_long:
  "64 \<le> length bs \<Longrightarrow> absorb hs bs = absorb (compress hs (take 64 bs)) (drop 64 bs)"
  by (subst absorb.simps) simp

lemma absorb_rest_short: "length (snd (absorb hs bs)) < 64"
proof (induction hs bs rule: absorb.induct)
  case (1 hs bs)
  show ?case
  proof (cases "length bs < 64")
    case True
    then show ?thesis by (simp add: absorb_short)
  next
    case False
    with "1" show ?thesis by (simp add: absorb_long)
  qed
qed

text \<open>Feeding \<open>xs @ ys\<close> is feeding \<open>xs\<close> and then \<open>ys\<close> after what \<open>xs\<close> left pending.\<close>

lemma absorb_append:
  "absorb hs (xs @ ys) = (case absorb hs xs of (hs', r) \<Rightarrow> absorb hs' (r @ ys))"
proof (induction hs xs rule: absorb.induct)
  case (1 hs bs)
  show ?case
  proof (cases "length bs < 64")
    case True
    then show ?thesis by (simp add: absorb_short)
  next
    case False
    then have "absorb hs (bs @ ys) = absorb (compress hs (take 64 bs)) (drop 64 bs @ ys)"
      by (simp add: absorb_long)
    also have "\<dots> = (case absorb (compress hs (take 64 bs)) (drop 64 bs) of
                       (hs', r) \<Rightarrow> absorb hs' (r @ ys))"
      using "1" False by simp
    also have "absorb (compress hs (take 64 bs)) (drop 64 bs) = absorb hs bs"
      using False by (simp add: absorb_long)
    finally show ?thesis .
  qed
qed

lemma update_update: "update (update s a) b = update s (a @ b)"
proof -
  obtain h1 r1 where "absorb (chain s) (pending s @ a) = (h1, r1)"
    by (cases "absorb (chain s) (pending s @ a)")
  then show ?thesis
    using absorb_append [of "chain s" "pending s @ a" b]
    by (cases "absorb h1 (r1 @ b)") (simp add: update_def)
qed

lemma update_Nil: "length (pending s) < 64 \<Longrightarrow> update s [] = s"
  by (simp add: update_def absorb_short)

lemma pending_update: "length (pending (update s d)) < 64"
  using absorb_rest_short [of "chain s" "pending s @ d"]
  by (cases "absorb (chain s) (pending s @ d)") (simp add: update_def)

text \<open>The loop of \<open>compute_sha256\<close> feeds the hash object with the whole content.\<close>

lemma hash_blocks_update:
  "length (pending s) < 64 \<Longrightarrow> hash_blocks s rest = update s rest"
proof (induction s rest rule: hash_blocks.induct)
  case (1 s rest)
  show ?case
  proof (cases "take 4096 rest = []")
    case True
    then have "rest = []" by (cases rest) simp_all
    with True "1.prems" show ?thesis
      by (subst hash_blocks.simps) (simp add: update_Nil)
  next
    case False
    then have "hash_blocks s rest = hash_blocks (update s (take 4096 rest)) (drop 4096 rest)"
      by (subst hash_blocks.simps) (simp add: Let_def)
    also have "\<dots> = update (update s (take 4096 rest)) (drop 4096 rest)"
      using "1.IH" [OF refl False] pending_update by simp
    also have "\<dots> = update s rest"
      by (simp add: update_update)
    finally show ?thesis .
  qed
qed

lemma compute_sha256_update: "compute_sha256 content = hexdigest (update sha256_new content)"
  by (simp add: compute_sha256_def hash_blocks_update sha256_new_def)

lemma absorb_chop64:
  "length msg mod 64 = 0 \<Longrightarrow> absorb hs msg = (foldl compress hs (chop64 msg), [])"
proof (induction hs msg rule: absorb.induct)
  case (1 hs bs)
  show ?case
  proof (cases "length bs < 64")
    case True
    with "1.prems" have "bs = []" by simp
    then show ?thesis by (simp add: absorb_short chop64.simps)
  next
    case False
    moreover from False "1.prems" have "length (drop 64 bs) mod 64 = 0"
      by (simp add: mod_eq_0_iff_dvd)
    ultimately show ?thesis
      using "1.IH" by (simp add: absorb_long chop64.simps [of bs])
  qed
qed

lemma pad_zeros: "(l + (119 - l mod 64) mod 64 + 9) mod 64 = (0::nat)"
proof -
  define m where "m = l mod 64"
  define q where "q = l div 64"
  define t where "t = (119 - m) mod 64"
  have l: "l = 64 * q + m" and m: "m < 64"
    by (simp_all add: m_def q_def)
  have "\<exists>k. l + t + 9 = 64 * k"
  proof (cases "m \<le> 55")
    case True
    then have "t = 55 - m"
      using mod_if [of "119 - m" 64] by (simp add: t_def)
    with True l have "l + t + 9 = 64 * (q + 1)" by simp
    then show ?thesis ..
  next
    case False
    with m have "t = 119 - m" by (simp add: t_def)
    with False m l have "l + t + 9 = 64 * (q + 2)" by simp
    then show ?thesis ..
  qed
  then obtain k where "l + t + 9 = 64 * k" ..
  then have "(l + t + 9) mod 64 = 0" by (simp only: mod_mult_self1_is_0)
  then show ?thesis by (simp only: t_def m_def)
qed

lemma length_padding: "length (padding l) = (119 - l mod 64) mod 64 + 9"
  by (simp add: padding_def be64_bytes_def)

lemma length_padded: "length (msg @ padding (length msg)) mod 64 = 0"
  using pad_zeros [of "length msg"] by (simp only: length_append length_padding add.assoc)

lemma sha256_at_once_fips: "sha256_at_once msg = sha256_fips msg"
proof -
  obtain hs r where a: "absorb sha256_H0 msg = (hs, r)"
    by (cases "absorb sha256_H0 msg")
  have "absorb hs (r @ padding (length msg)) = absorb sha256_H0 (msg @ padding (length msg))"
    using absorb_append [of sha256_H0 msg "padding (length msg)"] a by simp
  also have "\<dots> = (foldl compress sha256_H0 (chop64 (msg @ padding (length msg))), [])"
    by (rule absorb_chop64 [OF length_padded])
  finally show ?thesis
    using a by (simp add: sha256_at_once_def sha256_fips_def hexdigest_def update_def sha256_new_def)
qed

text \<open>A digest is 64 lowercase hexadecimal digits.\<close>

lemma is_lower_hex_digit: "is_lower_hex (hex_digit n)"
proof -
  have "n mod 16 < length ''0123456789abcdef''" by simp
  then have "''0123456789abcdef'' ! (n mod 16) \<in> set ''0123456789abcdef''"
    by (rule nth_mem)
  then show ?thesis by (simp only: is_lower_hex_def hex_digit_def)
qed

lemma length_state_bytes: "length (state_bytes hs) = 32"
  by (cases hs) (simp add: be32_bytes_def)

lemma length_hex_bytes: "length (concat (map hex_byte bs)) = 2 * length bs"
  by (induction bs) (simp_all add: hex_byte_def)

lemma hex_bytes_lower: "list_all is_lower_hex (concat (map hex_byte bs))"
  by (induction bs) (simp_all add: hex_byte_def is_lower_hex_digit)

lemma length_hexdigest: "length (hexdigest s) = 64"
  by (simp add: hexdigest_def length_hex_bytes length_state_bytes)

lemma hexdigest_lower: "list_all is_lower_hex (hexdigest s)"
  by (simp add: hexdigest_def hex_bytes_lower)

lemma length_compute_sha256: "length (compute_sha256 content) = 64"
  by (simp add: compute_sha256_def length_hexdigest)

lemma compute_sha256_lower: "list_all is_lower_hex (compute_sha256 content)"
  by (simp add: compute_sha256_def hexdigest_lower)

text \<open>
  The digests of the empty file and of the file \<open>abc\<close>, as the standard's test vectors
  give them.
\<close>

lemma compute_sha256_empty:
  "compute_sha256 [] = ''e3b0c44298fc1c149afbf4c8996fb92427ae41e4649b934ca495991b7852b855''"
  by code_simp

lemma compute_sha256_abc:
  "compute_sha256 [0x61, 0x62, 0x63]
     = ''ba7816bf8f01cfea414140de5dae2223b00361a396177a9cb410ff61f20015ad''"
  by code_simp

section \<open>Text, paths and the sidecar check\<close>

lemma length_takeWhile_less: "x \<in> set xs \<Longrightarrow> \<not> P x \<Longrightarrow> length (takeWhile P xs) < length xs"
  by (induction xs) auto

lemma strip_has_token: "strip s \<noteq> [] \<Longrightarrow> dropWhile is_space (strip s) \<noteq> []"
proof -
  assume a: "strip s \<noteq> []"
  define u where "u = dropWhile is_space s"
  have s: "strip s = rev (dropWhile is_space (rev u))" by (simp add: strip_def u_def)
  from a have "u \<noteq> []" by (auto simp: s)
  then have "\<not> is_space (hd u)" using hd_dropWhile [of is_space s] by (simp add: u_def)
  moreover have "hd u \<in> set (dropWhile is_space (rev u))"
  proof -
    from \<open>u \<noteq> []\<close> obtain x xs where u: "u = x # xs" by (cases u) auto
    have "dropWhile is_space (rev xs @ [x]) = dropWhile is_space (rev xs) @ (if (\<forall>y\<in>set (rev xs). is_space y) then dropWhile is_space [x] else [x])"
      by (simp add: dropWhile_append)
    with \<open>\<not> is_space (hd u)\<close> u show ?thesis by (auto simp: dropWhile_append)
  qed
  ultimately have "\<exists>x\<in>set (strip s). \<not> is_space x" by (auto simp: s)
  then show ?thesis by simp
qed

lemma split_ws_strip: "strip s \<noteq> [] \<Longrightarrow> split_ws (strip s) \<noteq> []"
  using strip_has_token [of s] by (subst split_ws.simps) (simp split: list.splits)

lemma takeWhile_dropWhile_same: "takeWhile P (dropWhile P xs) = []"
  by (induction xs) auto

lemma rfind_nth:
  assumes "0 \<le> rfind c s"
  shows "nat (rfind c s) < length s \<and> s ! nat (rfind c s) = c"
proof -
  from assms have c: "c \<in> set s" by (auto simp: rfind_def split: if_splits)
  define k where "k = length (takeWhile (\<lambda>x. x \<noteq> c) (rev s))"
  have k: "k < length s"
    using c length_takeWhile_less [of c "rev s" "\<lambda>x. x \<noteq> c"] by (simp add: k_def)
  then have "\<not> (rev s ! k \<noteq> c)"
    unfolding k_def by (intro nth_length_takeWhile) simp
  then have "s ! (length s - Suc k) = c" using k by (simp add: rev_nth)
  moreover have "rfind c s = int (length s) - 1 - int k" using c by (simp add: rfind_def k_def)
  then have "nat (rfind c s) = length s - Suc k" using k by simp
  ultimately show ?thesis using k by simp
qed

lemma path_suffix_cases:
  "path_suffix name = [] \<or>
   (\<exists>i. i < length name \<and> name ! i = CHR ''.'' \<and> path_suffix name = drop i name)"
proof (cases "0 < rfind (CHR ''.'') name \<and> rfind (CHR ''.'') name < int (length name) - 1")
  case True
  then have "0 \<le> rfind (CHR ''.'') name" by simp
  from rfind_nth [OF this] True show ?thesis
    by (auto simp: path_suffix_def Let_def)
next
  case False
  then show ?thesis by (auto simp: path_suffix_def Let_def)
qed


lemma with_suffix_appends:
  assumes "valid_name name"
  shows "with_suffix name (path_suffix name @ ''.sha256'') = Inr (name @ ''.sha256'')"
proof -
  from assms have n: "name \<noteq> []" "CHR ''/'' \<notin> set name" by (simp_all add: valid_name_def)
  from path_suffix_cases [of name] show ?thesis
  proof
    assume "path_suffix name = []"
    with n show ?thesis by (simp add: with_suffix_def startswith_def)
  next
    assume "\<exists>i. i < length name \<and> name ! i = CHR ''.'' \<and> path_suffix name = drop i name"
    then obtain i where i: "i < length name" "name ! i = CHR ''.''" "path_suffix name = drop i name"
      by blast
    then have d: "drop i name = CHR ''.'' # drop (Suc i) name"
      by (simp add: Cons_nth_drop_Suc [symmetric])
    have "set (drop i name) \<subseteq> set name" by (rule set_drop_subset)
    with n have "CHR ''/'' \<notin> set (drop i name)" by blast
    moreover have "take (length name - length (drop i name)) name @ drop i name = name"
      using i by simp
    ultimately show ?thesis
      using n i d by (simp add: with_suffix_def startswith_def Let_def)
  qed
qed


lemma check_sidecar_valid:
  assumes "valid_name n"
  shows "check_sidecar e d n sha =
           (case file_text e d (n @ ''.sha256'') of
              None \<Rightarrow> Inr []
            | Some text \<Rightarrow>
                if strip text = [] then Inr []
                else if lower (hd (split_ws (strip text))) \<noteq> lower sha
                     then Inr (mismatch_lines n sha (hd (split_ws (strip text))))
                     else Inr [])"
proof (cases "file_text e d (n @ ''.sha256'')")
  case None
  then show ?thesis by (simp add: check_sidecar_def with_suffix_appends [OF assms])
next
  case (Some body)
  show ?thesis
  proof (cases "strip body = []")
    case True
    with Some show ?thesis by (simp add: check_sidecar_def with_suffix_appends [OF assms])
  next
    case False
    from split_ws_strip [OF False] obtain t ts where "split_ws (strip body) = t # ts"
      by (cases "split_ws (strip body)") auto
    with Some False show ?thesis
      by (simp add: check_sidecar_def with_suffix_appends [OF assms])
  qed
qed

lemma check_sidecar_no_IndexError: "check_sidecar e d n sha \<noteq> Inl IndexError"
proof (cases "with_suffix n (path_suffix n @ ''.sha256'')")
  case (Inl err)
  then have "err = ValueError" by (auto simp: with_suffix_def Let_def split: if_splits)
  with Inl show ?thesis by (simp add: check_sidecar_def)
next
  case (Inr f)
  show ?thesis
  proof (cases "file_text e d f")
    case None
    with Inr show ?thesis by (simp add: check_sidecar_def)
  next
    case (Some body)
    show ?thesis
    proof (cases "strip body = []")
      case True
      with Inr Some show ?thesis by (simp add: check_sidecar_def)
    next
      case False
      from split_ws_strip [OF False] obtain t ts where "split_ws (strip body) = t # ts"
        by (cases "split_ws (strip body)") auto
      with Inr Some False show ?thesis by (simp add: check_sidecar_def)
    qed
  qed
qed

lemma platform_step_missing:
  "find_asset e d (patterns cfg) = Inr None \<Longrightarrow>
   platform_step e d b k cfg = Inr ([missing_line k], None)"
  by (simp add: platform_step_def)

lemma platform_step_found:
  assumes "find_asset e d (patterns cfg) = Inr (Some n)" and "valid_name n"
  shows "\<exists>w. check_sidecar e d n (compute_sha256 (file_bytes e d n)) = Inr w \<and>
             platform_step e d b k cfg =
               Inr (w @ [found_line k n (get_file_size (file_bytes e d n))],
                    Some \<lparr>url = b @ ''/'' @ filename cfg,
                           sha256 = compute_sha256 (file_bytes e d n),
                           fsize = get_file_size (file_bytes e d n)\<rparr>)"
proof -
  obtain w where "check_sidecar e d n (compute_sha256 (file_bytes e d n)) = Inr w"
    using check_sidecar_valid [OF assms(2), of e d "compute_sha256 (file_bytes e d n)"]
    by (auto split: option.splits if_splits)
  with assms(1) show ?thesis by (simp add: platform_step_def Let_def)
qed

lemma platform_step_entry:
  assumes "platform_step e d b k cfg = Inr (lines, Some r)"
  shows "\<exists>n. find_asset e d (patterns cfg) = Inr (Some n) \<and>
             r = \<lparr>url = b @ ''/'' @ filename cfg,
                   sha256 = compute_sha256 (file_bytes e d n),
                   fsize = get_file_size (file_bytes e d n)\<rparr>"
  using assms by (auto simp: platform_step_def Let_def split: option.splits sum.splits)

lemma platform_step_named:
  assumes "assets_named e d cfgs" and "(k, cfg) \<in> set cfgs"
  shows "\<exists>lines entry. platform_step e d b k cfg = Inr (lines, entry)"
proof (cases "find_asset e d (patterns cfg)")
  case (Inl err)
  with assms show ?thesis
    by (auto simp: assets_named_def list_all_iff)
next
  case (Inr found)
  show ?thesis
  proof (cases found)
    case None
    with Inr show ?thesis by (simp add: platform_step_missing)
  next
    case (Some n)
    with Inr assms have "valid_name n"
      by (auto simp: assets_named_def list_all_iff)
    from platform_step_found [OF Inr [unfolded Some] this] show ?thesis by blast
  qed
qed

section \<open>The loop over the platforms\<close>

lemma scan_platforms_prefix:
  "scan_platforms e d b cfgs out acc = (out', res) \<Longrightarrow> \<exists>more. out' = out @ more"
proof (induction cfgs arbitrary: out acc)
  case Nil
  then show ?case by simp
next
  case (Cons c cfgs)
  obtain k cfg where c: "c = (k, cfg)" by (cases c)
  show ?case
  proof (cases "platform_step e d b k cfg")
    case (Inl err)
    with Cons.prems c show ?thesis by simp
  next
    case (Inr p)
    obtain lines entry where p: "p = (lines, entry)" by (cases p)
    from Cons.prems c Inr p Cons.IH [of "out @ lines"] show ?thesis by auto
  qed
qed

lemma scan_platforms_completes:
  "assets_named e d cfgs \<Longrightarrow> \<exists>out' found. scan_platforms e d b cfgs out acc = (out', Inr found)"
proof (induction cfgs arbitrary: out acc)
  case Nil
  then show ?case by simp
next
  case (Cons c cfgs)
  obtain k cfg where c: "c = (k, cfg)" by (cases c)
  from Cons.prems have rest: "assets_named e d cfgs" by (simp add: assets_named_def)
  from platform_step_named [OF Cons.prems, of k cfg b] c
  obtain lines entry where "platform_step e d b k cfg = Inr (lines, entry)" by auto
  with c Cons.IH [OF rest] show ?case by simp
qed

lemma scan_platforms_other:
  "scan_platforms e d b cfgs out acc = (out', Inr found) \<Longrightarrow> k \<notin> fst ` set cfgs \<Longrightarrow>
   map_of found k = map_of acc k"
proof (induction cfgs arbitrary: out acc)
  case Nil
  then show ?case by simp
next
  case (Cons c cfgs)
  obtain k' cfg' where c: "c = (k', cfg')" by (cases c)
  from Cons.prems(1) c obtain lines' entry'
    where step: "platform_step e d b k' cfg' = Inr (lines', entry')"
    by (cases "platform_step e d b k' cfg'") auto
  define acc' where "acc' = (case entry' of None \<Rightarrow> acc | Some r \<Rightarrow> AList.update k' r acc)"
  from Cons.prems(1) c step
  have rest: "scan_platforms e d b cfgs (out @ lines') acc' = (out', Inr found)"
    by (simp add: acc'_def)
  from Cons.prems(2) c have "k \<noteq> k'" and "k \<notin> fst ` set cfgs" by auto
  from \<open>k \<noteq> k'\<close> have "map_of acc' k = map_of acc k"
    by (simp add: acc'_def update_conv' split: option.splits)
  with Cons.IH [OF rest \<open>k \<notin> fst ` set cfgs\<close>] show ?case by simp
qed

lemma scan_platforms_lookup:
  assumes "scan_platforms e d b cfgs out acc = (out', Inr found)"
    and "distinct (map fst cfgs)" and "(k, cfg) \<in> set cfgs"
  shows "\<exists>lines entry. platform_step e d b k cfg = Inr (lines, entry) \<and>
           set lines \<subseteq> set out' \<and>
           map_of found k = (case entry of None \<Rightarrow> map_of acc k | Some r \<Rightarrow> Some r)"
  using assms
proof (induction cfgs arbitrary: out acc)
  case Nil
  then show ?case by simp
next
  case (Cons c cfgs)
  obtain k' cfg' where c: "c = (k', cfg')" by (cases c)
  from Cons.prems(1) c obtain lines' entry'
    where step: "platform_step e d b k' cfg' = Inr (lines', entry')"
    by (cases "platform_step e d b k' cfg'") auto
  define acc' where "acc' = (case entry' of None \<Rightarrow> acc | Some r \<Rightarrow> AList.update k' r acc)"
  from Cons.prems(1) c step
  have rest: "scan_platforms e d b cfgs (out @ lines') acc' = (out', Inr found)"
    by (simp add: acc'_def)
  show ?case
  proof (cases "(k, cfg) \<in> set cfgs")
    case True
    with Cons.prems(2) c have "k \<noteq> k'" by (auto simp: image_iff)
    then have "map_of acc' k = map_of acc k"
      by (simp add: acc'_def update_conv' split: option.splits)
    moreover from Cons.IH [OF rest _ True] Cons.prems(2)
    obtain lines entry where "platform_step e d b k cfg = Inr (lines, entry)"
      "set lines \<subseteq> set out'"
      "map_of found k = (case entry of None \<Rightarrow> map_of acc' k | Some r \<Rightarrow> Some r)"
      by auto
    ultimately show ?thesis by (auto split: option.splits)
  next
    case False
    with Cons.prems(3) c have eq: "k = k'" "cfg = cfg'" by auto
    from Cons.prems(2) c eq have "k \<notin> fst ` set cfgs" by simp
    from scan_platforms_other [OF rest this] have other: "map_of found k = map_of acc' k" .
    from scan_platforms_prefix [OF rest] have "set lines' \<subseteq> set out'" by auto
    with step eq other show ?thesis
      by (auto simp: acc'_def update_conv' split: option.splits)
  qed
qed

lemma update_member:
  "(k', r') \<in> set (AList.update k v al) \<Longrightarrow> (k', r') = (k, v) \<or> (k', r') \<in> set al"
  by (induction al) (auto split: if_splits)

lemma scan_platforms_entries:
  "scan_platforms e d b cfgs out acc = (out', Inr found) \<Longrightarrow> (k, r) \<in> set found \<Longrightarrow>
   (k, r) \<in> set acc \<or>
   (\<exists>cfg lines. (k, cfg) \<in> set cfgs \<and> platform_step e d b k cfg = Inr (lines, Some r))"
proof (induction cfgs arbitrary: out acc)
  case Nil
  then show ?case by simp
next
  case (Cons c cfgs)
  obtain k' cfg' where c: "c = (k', cfg')" by (cases c)
  from Cons.prems(1) c obtain lines' entry'
    where step: "platform_step e d b k' cfg' = Inr (lines', entry')"
    by (cases "platform_step e d b k' cfg'") auto
  define acc' where "acc' = (case entry' of None \<Rightarrow> acc | Some r \<Rightarrow> AList.update k' r acc)"
  from Cons.prems(1) c step
  have rest: "scan_platforms e d b cfgs (out @ lines') acc' = (out', Inr found)"
    by (simp add: acc'_def)
  from Cons.IH [OF rest Cons.prems(2)]
  show ?case
  proof
    assume "(k, r) \<in> set acc'"
    then have "(k, r) \<in> set acc \<or> ((k, r) = (k', the entry') \<and> entry' \<noteq> None)"
      by (auto simp: acc'_def split: option.splits dest: update_member)
    with step c show ?thesis by auto
  next
    assume "\<exists>cfg lines. (k, cfg) \<in> set cfgs \<and> platform_step e d b k cfg = Inr (lines, Some r)"
    then show ?thesis by auto
  qed
qed

section \<open>The whole run\<close>

lemma distinct_platform_keys: "distinct (map fst (platform_configs vc))"
  by (simp add: platform_configs_def)

lemma main_usage:
  "length (argv e) < 3 \<Longrightarrow> main e = \<lparr>exit_status = 1, stdout = usage, written = None\<rparr>"
  by (simp add: main_def)

lemma main_no_assets_dir:
  "3 \<le> length (argv e) \<Longrightarrow> \<not> path_exists e (argv e ! 2) \<Longrightarrow>
   main e = \<lparr>exit_status = 1,
             stdout = [Print (''Error: Assets directory not found: '' @ path_str (argv e ! 2))],
             written = None\<rparr>"
  by (simp add: main_def Let_def)

lemma main_loop_raises:
  fixes e :: env
  defines "vc \<equiv> lstrip_chars ''v'' (argv e ! 1)"
  assumes "3 \<le> length (argv e)" and "path_exists e (argv e ! 2)"
    and "scan_platforms e (argv e ! 2) (base_url_of vc) (platform_configs vc) [] [] = (out, Inl err)"
  shows "main e = uncaught out"
  using assms by (simp add: main_def Let_def)

lemma main_notes_raise:
  fixes e :: env
  defines "vc \<equiv> lstrip_chars ''v'' (argv e ! 1)"
  assumes "3 \<le> length (argv e)" and "path_exists e (argv e ! 2)"
    and "scan_platforms e (argv e ! 2) (base_url_of vc) (platform_configs vc) [] [] = (out, Inr found)"
    and "extract_notes e vc = Inl err"
  shows "main e = uncaught out"
  using assms by (simp add: main_def Let_def)

lemma main_completes:
  fixes e :: env
  defines "vc \<equiv> lstrip_chars ''v'' (argv e ! 1)"
  assumes "3 \<le> length (argv e)" and "path_exists e (argv e ! 2)"
    and "scan_platforms e (argv e ! 2) (base_url_of vc) (platform_configs vc) [] [] = (out, Inr found)"
    and "extract_notes e vc = Inr t"
  shows "main e =
          \<lparr>exit_status = 0,
           stdout = out @
             [Print (newline # ''Generated ''
                       @ path_str (if 3 < length (argv e) then argv e ! 3 else ''latest.json'')
                       @ '':''),
              PrintJson \<lparr>version = ''v'' @ vc, pub_date = utc_now e, notes_text = t,
                         platforms = found\<rparr>],
           written = Some (path_str (if 3 < length (argv e) then argv e ! 3 else ''latest.json''),
                           \<lparr>version = ''v'' @ vc, pub_date = utc_now e, notes_text = t,
                            platforms = found\<rparr>)\<rparr>"
  using assms by (simp add: main_def Let_def)

lemma main_written:
  fixes e :: env
  defines "vc \<equiv> lstrip_chars ''v'' (argv e ! 1)"
  assumes "written (main e) = Some (p, m)"
  shows "3 \<le> length (argv e) \<and> path_exists e (argv e ! 2) \<and>
         (\<exists>out. scan_platforms e (argv e ! 2) (base_url_of vc) (platform_configs vc) [] []
                  = (out, Inr (platforms m))) \<and>
         extract_notes e vc = Inr (notes_text m) \<and>
         version m = ''v'' @ vc \<and>
         exit_status (main e) = 0"
proof -
  have a: "3 \<le> length (argv e)"
    using assms(2) by (cases "length (argv e) < 3") (simp_all add: main_usage)
  have b: "path_exists e (argv e ! 2)"
    using assms(2) a by (cases "path_exists e (argv e ! 2)") (simp_all add: main_no_assets_dir)
  obtain out res
    where s: "scan_platforms e (argv e ! 2) (base_url_of vc) (platform_configs vc) [] [] = (out, res)"
    by (cases "scan_platforms e (argv e ! 2) (base_url_of vc) (platform_configs vc) [] []")
  show ?thesis
  proof (cases res)
    case (Inl err)
    with s assms(2) main_loop_raises [OF a b, of out err] show ?thesis
      by (simp add: vc_def uncaught_def)
  next
    case (Inr found)
    show ?thesis
    proof (cases "extract_notes e vc")
      case (Inl err)
      with s Inr assms(2) main_notes_raise [OF a b, of out found err] show ?thesis
        by (simp add: vc_def uncaught_def)
    next
      case (Inr t)
      with s \<open>res = Inr found\<close> assms(2) main_completes [OF a b, of out found t] a b
      show ?thesis by (auto simp: vc_def)
    qed
  qed
qed

lemma main_stdout_prefix:
  fixes e :: env
  defines "vc \<equiv> lstrip_chars ''v'' (argv e ! 1)"
  assumes "3 \<le> length (argv e)" and "path_exists e (argv e ! 2)"
    and "scan_platforms e (argv e ! 2) (base_url_of vc) (platform_configs vc) [] [] = (out, res)"
  shows "set out \<subseteq> set (stdout (main e))"
proof (cases res)
  case (Inl err)
  with assms(4) main_loop_raises [OF assms(2,3), of out err] show ?thesis
    by (simp add: vc_def uncaught_def)
next
  case (Inr found)
  show ?thesis
  proof (cases "extract_notes e vc")
    case (Inl err)
    with assms(4) Inr main_notes_raise [OF assms(2,3), of out found err] show ?thesis
      by (simp add: vc_def uncaught_def)
  next
    case (Inr t)
    with assms(4) \<open>res = Inr found\<close> main_completes [OF assms(2,3), of out found t] show ?thesis
      by (auto simp: vc_def)
  qed
qed

lemma find_asset_none:
  "list_all (\<lambda>pat. glob e d pat = []) pats \<Longrightarrow> find_asset e d pats \<noteq> Inr (Some n)"
  by (induction pats) (simp_all split: option.splits)

lemma find_asset_accepts:
  "find_asset e d pats = Inr None \<Longrightarrow> list_all (\<lambda>pat. glob_error pat = None) pats"
  by (induction pats) (simp_all split: option.splits list.splits)

lemma matched_asset_step:
  fixes e :: env
  defines "vc \<equiv> lstrip_chars ''v'' (argv e ! 1)"
  assumes "3 \<le> length (argv e)" and "path_exists e (argv e ! 2)"
    and "(k, cfg) \<in> set (platform_configs vc)"
    and "find_asset e (argv e ! 2) (patterns cfg) = Inr (Some n)"
    and "assets_named e (argv e ! 2) (platform_configs vc)"
    and "extract_notes e vc = Inr t"
    and "check_sidecar e (argv e ! 2) n (compute_sha256 (file_bytes e (argv e ! 2) n)) = Inr w"
  shows "platform_step e (argv e ! 2) (base_url_of vc) k cfg =
           Inr (w @ [found_line k n (get_file_size (file_bytes e (argv e ! 2) n))],
                Some \<lparr>url = base_url_of vc @ ''/'' @ filename cfg,
                       sha256 = compute_sha256 (file_bytes e (argv e ! 2) n),
                       fsize = get_file_size (file_bytes e (argv e ! 2) n)\<rparr>)
       \<and> set w \<subseteq> set (stdout (main e))
       \<and> exit_status (main e) = 0
       \<and> (\<exists>p m. written (main e) = Some (p, m) \<and>
             map_of (platforms m) k =
               Some \<lparr>url = base_url_of vc @ ''/'' @ filename cfg,
                      sha256 = compute_sha256 (file_bytes e (argv e ! 2) n),
                      fsize = get_file_size (file_bytes e (argv e ! 2) n)\<rparr>)"
proof -
  let ?d = "argv e ! 2"
  let ?r = "\<lparr>url = base_url_of vc @ ''/'' @ filename cfg,
             sha256 = compute_sha256 (file_bytes e ?d n),
             fsize = get_file_size (file_bytes e ?d n)\<rparr>"
  from assms(5,6,4) have valid: "valid_name n"
    by (auto simp: assets_named_def list_all_iff)
  from platform_step_found [OF assms(5) valid, of "base_url_of vc" k] assms(8)
  have step: "platform_step e ?d (base_url_of vc) k cfg =
                Inr (w @ [found_line k n (get_file_size (file_bytes e ?d n))], Some ?r)"
    by simp
  obtain out found
    where scan: "scan_platforms e ?d (base_url_of vc) (platform_configs vc) [] []
                  = (out, Inr found)"
    using scan_platforms_completes [OF assms(6)] by blast
  from scan_platforms_lookup [OF scan distinct_platform_keys assms(4)] step
  have lines: "set w \<subseteq> set out" and entry: "map_of found k = Some ?r"
    by auto
  from lines main_stdout_prefix [OF assms(2,3), of out "Inr found"] scan
  have printed: "set w \<subseteq> set (stdout (main e))"
    by (auto simp: vc_def)
  from main_completes [OF assms(2,3), of out found t] scan assms(7) entry
  have "exit_status (main e) = 0"
    and "\<exists>p m. written (main e) = Some (p, m) \<and> map_of (platforms m) k = Some ?r"
    by (simp_all add: vc_def)
  with step printed show ?thesis by blast
qed

section \<open>The example run\<close>

lemma example_run_sel:
  "argv (example_run v sc) = [''generate-latest-json.py'', v, ''release-assets'']"
  "path_exists (example_run v sc) p = (p = ''release-assets'')"
  "glob (example_run v sc) d pat =
     (if pat = ''CodeSwitch-v2.6.23.AppImage'' then [''CodeSwitch-v2.6.23.AppImage''] else [])"
  "file_bytes (example_run v sc) d n = [0x61, 0x62, 0x63]"
  "file_text (example_run v sc) d n =
     (if n = ''CodeSwitch-v2.6.23.AppImage.sha256'' then sc else None)"
  "release_notes (example_run v sc) = Some example_notes"
  "utc_now (example_run v sc) = ''2026-01-01T00:00:00+00:00''"
  by (simp_all add: example_run_def)

lemma example_run_named:
  "assets_named (example_run v sc) d (platform_configs ''2.6.23'')"
  by (simp add: assets_named_def platform_configs_def example_run_sel valid_name_def
      glob_error_def)

lemma example_run_notes:
  "extract_notes (example_run v sc) ''2.6.23'' = Inr ''Foo''"
  by (simp add: extract_notes_def example_run_sel example_notes_def re_search_notes_def
      re_metachars_def version_items_def heading_prefix_def startswith_def newline_def
      strip_def is_space_def)

lemma example_run_main:
  assumes "lstrip_chars ''v'' v = ''2.6.23''"
    and "check_sidecar (example_run v sc) ''release-assets'' ''CodeSwitch-v2.6.23.AppImage''
           (compute_sha256 [0x61, 0x62, 0x63]) = Inr w"
  shows "main (example_run v sc) =
     \<lparr>exit_status = 0,
      stdout = [missing_line ''windows-x86_64'', missing_line ''windows-x86_64-installer'',
                missing_line ''darwin-aarch64'', missing_line ''darwin-x86_64''] @ w @
               [found_line ''linux-x86_64'' ''CodeSwitch-v2.6.23.AppImage'' 3,
                Print (newline # ''Generated latest.json:''),
                PrintJson \<lparr>version = ''v2.6.23'', pub_date = ''2026-01-01T00:00:00+00:00'',
                   notes_text = ''Foo'',
                   platforms = [(''linux-x86_64'',
                     \<lparr>url = base_url_of ''2.6.23'' @ ''/CodeSwitch-v2.6.23.AppImage'',
                      sha256 = compute_sha256 [0x61, 0x62, 0x63], fsize = 3\<rparr>)]\<rparr>],
      written = Some (''latest.json'',
                \<lparr>version = ''v2.6.23'', pub_date = ''2026-01-01T00:00:00+00:00'',
                   notes_text = ''Foo'',
                   platforms = [(''linux-x86_64'',
                     \<lparr>url = base_url_of ''2.6.23'' @ ''/CodeSwitch-v2.6.23.AppImage'',
                      sha256 = compute_sha256 [0x61, 0x62, 0x63], fsize = 3\<rparr>)]\<rparr>)\<rparr>"
  using assms
  by (simp add: main_def Let_def example_run_sel example_run_notes platform_configs_def
      platform_step_def get_file_size_def glob_error_def path_str_def)

lemma example_sidecar_absent:
  "check_sidecar (example_run v None) d ''CodeSwitch-v2.6.23.AppImage'' sha = Inr []"
  by (simp add: check_sidecar_valid valid_name_def example_run_sel)

lemma example_run_reached:
  "3 \<le> length (argv (example_run v sc))"
  "path_exists (example_run v sc) (argv (example_run v sc) ! 2)"
  "argv (example_run v sc) ! 2 = ''release-assets''"
  "lstrip_chars ''v'' (argv (example_run ''v2.6.23'' sc) ! 1) = ''2.6.23''"
  by (simp_all add: example_run_sel lstrip_chars_def)

lemma example_run_linux:
  "(''linux-x86_64'', linux_config) \<in> set (platform_configs ''2.6.23'')"
  "find_asset (example_run v sc) d (patterns linux_config)
     = Inr (Some ''CodeSwitch-v2.6.23.AppImage'')"
  "filename linux_config = ''CodeSwitch-v2.6.23.AppImage''"
  by (simp_all add: platform_configs_def linux_config_def example_run_sel glob_error_def)

lemma strip_blank: "strip blank = []"
  by (simp add: blank_def strip_def is_space_def newline_def)

section \<open>A blank sidecar file is as good as none\<close>

lemma without_file_sel:
  "argv (without_file e d f) = argv e"
  "path_exists (without_file e d f) = path_exists e"
  "glob (without_file e d f) = glob e"
  "file_bytes (without_file e d f) = file_bytes e"
  "release_notes (without_file e d f) = release_notes e"
  "utc_now (without_file e d f) = utc_now e"
  "re_other (without_file e d f) = re_other e"
  "file_text (without_file e d f) d' f' = (if d' = d \<and> f' = f then None else file_text e d' f')"
  by (simp_all add: without_file_def)

lemma find_asset_without_file:
  "find_asset (without_file e d f) d0 pats = find_asset e d0 pats"
  by (induction pats) (simp_all add: without_file_sel split: list.splits option.splits)

lemma check_sidecar_without_blank:
  assumes "file_text e d f = Some body" and "strip body = []"
  shows "check_sidecar (without_file e d f) d0 n0 s0 = check_sidecar e d0 n0 s0"
proof (cases "with_suffix n0 (path_suffix n0 @ ''.sha256'')")
  case (Inl err)
  then show ?thesis by (simp add: check_sidecar_def)
next
  case (Inr g)
  show ?thesis
  proof (cases "d0 = d \<and> g = f")
    case True
    with Inr assms show ?thesis by (simp add: check_sidecar_def without_file_sel)
  next
    case False
    with Inr show ?thesis by (auto simp: check_sidecar_def without_file_sel)
  qed
qed

lemma platform_step_without_blank:
  assumes "file_text e d f = Some body" and "strip body = []"
  shows "platform_step (without_file e d f) d0 b k cfg = platform_step e d0 b k cfg"
  by (simp add: platform_step_def find_asset_without_file without_file_sel Let_def
      check_sidecar_without_blank [OF assms] split: option.splits sum.splits)

lemma scan_platforms_without_blank:
  assumes "file_text e d f = Some body" and "strip body = []"
  shows "scan_platforms (without_file e d f) d0 b cfgs out acc = scan_platforms e d0 b cfgs out acc"
proof (induction cfgs arbitrary: out acc)
  case Nil
  show ?case by simp
next
  case (Cons c cfgs)
  obtain k cfg where c: "c = (k, cfg)" by (cases c)
  show ?case
    by (simp add: c platform_step_without_blank [OF assms] Cons.IH split: sum.splits prod.splits)
qed

lemma re_search_notes_without_file:
  "re_search_notes (without_file e d f) v content = re_search_notes e v content"
  by (simp add: re_search_notes_def without_file_sel)

lemma extract_notes_without_file:
  "extract_notes (without_file e d f) v = extract_notes e v"
  by (simp add: extract_notes_def re_search_notes_without_file without_file_sel
      split: option.splits)

lemma main_without_blank:
  assumes "file_text e d f = Some body" and "strip body = []"
  shows "main (without_file e d f) = main e"
  by (simp add: main_def Let_def without_file_sel scan_platforms_without_blank [OF assms]
      extract_notes_without_file split: prod.splits sum.splits)

section \<open>Release notes and the exit status\<close>

lemma extract_notes_absent: "release_notes e = None \<Longrightarrow> extract_notes e v = Inr []"
  by (simp add: extract_notes_def)

lemma extract_notes_unmatched: "extract_notes (example_run v sc) ''2.6.24'' = Inr []"
  by (simp add: extract_notes_def example_run_sel example_notes_def re_search_notes_def
      re_metachars_def version_items_def heading_prefix_def startswith_def newline_def
      strip_def is_space_def)

lemma unbalanced_version_notes:
  "extract_notes (example_run v sc) ''2.6.23(rc1'' = Inl ReError"
  by (simp add: extract_notes_def example_run_sel re_search_notes_def re_metachars_def)

text \<open>
  A version with \<open>**\<close> gives patterns that \<open>glob\<close> refuses: the first call raises, before
  anything is printed.
\<close>

lemma refused_pattern_aborts:
  "main (example_run ''**'' None) = \<lparr>exit_status = 1, stdout = [], written = None\<rparr>"
  by (simp add: main_def Let_def example_run_sel lstrip_chars_def platform_configs_def
      platform_step_def glob_error_def uncaught_def)

lemma main_exit_status:
  fixes e :: env
  defines "vc \<equiv> lstrip_chars ''v'' (argv e ! 1)"
  shows "exit_status (main e) = 0 \<longleftrightarrow>
           3 \<le> length (argv e) \<and> path_exists e (argv e ! 2) \<and>
           (\<exists>out found. scan_platforms e (argv e ! 2) (base_url_of vc) (platform_configs vc) [] []
                          = (out, Inr found)) \<and>
           (\<exists>t. extract_notes e vc = Inr t)"
    and "exit_status (main e) = 0 \<longleftrightarrow> written (main e) \<noteq> None"
    and "exit_status (main e) = 0 \<or> exit_status (main e) = 1"
  unfolding vc_def
  by (auto simp: main_def Let_def uncaught_def split: prod.splits sum.splits)

section \<open>Claims\<close>

text \<open>
  C1. Take a matched asset whose sidecar file exists and holds a token, in a run that
  reaches the loop, whose patterns \<open>glob\<close> accepts, whose assets have file names and
  whose release notes are read without an exception. The run ends with status 0 and the
  manifest holds the digest that was computed, never the token of the sidecar file. When
  the token and the digest differ after lowering both, the step of the platform prints
  three lines before the line of the found asset: the warning that names the asset, the
  digest that was computed, and the token of the file; the three lines are on the console
  of the run. When the token differs from the digest in the case of its letters only,
  the step prints the line of the found asset and nothing else.
\<close>

theorem checksum_mismatch_only_warns:
  fixes e :: env and n body :: string
  defines "vc \<equiv> lstrip_chars ''v'' (argv e ! 1)"
    and "sha \<equiv> compute_sha256 (file_bytes e (argv e ! 2) n)"
    and "sz \<equiv> get_file_size (file_bytes e (argv e ! 2) n)"
    and "file_sha256 \<equiv> hd (split_ws (strip body))"
  assumes "3 \<le> length (argv e)" and "path_exists e (argv e ! 2)"
    and "(k, cfg) \<in> set (platform_configs vc)"
    and "find_asset e (argv e ! 2) (patterns cfg) = Inr (Some n)"
    and "assets_named e (argv e ! 2) (platform_configs vc)"
    and "extract_notes e vc = Inr t"
    and "file_text e (argv e ! 2) (n @ ''.sha256'') = Some body"
    and "strip body \<noteq> []"
  shows "exit_status (main e) = 0
       \<and> (\<exists>p m. written (main e) = Some (p, m) \<and>
             map_of (platforms m) k =
               Some \<lparr>url = base_url_of vc @ ''/'' @ filename cfg, sha256 = sha, fsize = sz\<rparr>)
       \<and> (lower file_sha256 \<noteq> lower sha \<longrightarrow>
             platform_step e (argv e ! 2) (base_url_of vc) k cfg =
               Inr ([Print (''Warning: SHA256 mismatch for '' @ n),
                     Print (''  Computed: '' @ sha),
                     Print (''  From file: '' @ file_sha256),
                     Print (''Found '' @ k @ '': '' @ n @ '' ('' @ str_of_int sz @ '' bytes)'')],
                    Some \<lparr>url = base_url_of vc @ ''/'' @ filename cfg, sha256 = sha, fsize = sz\<rparr>)
             \<and> Print (''Warning: SHA256 mismatch for '' @ n) \<in> set (stdout (main e))
             \<and> Print (''  Computed: '' @ sha) \<in> set (stdout (main e))
             \<and> Print (''  From file: '' @ file_sha256) \<in> set (stdout (main e)))
       \<and> (lower file_sha256 = lower sha \<longrightarrow>
             platform_step e (argv e ! 2) (base_url_of vc) k cfg =
               Inr ([Print (''Found '' @ k @ '': '' @ n @ '' ('' @ str_of_int sz @ '' bytes)'')],
                    Some \<lparr>url = base_url_of vc @ ''/'' @ filename cfg, sha256 = sha, fsize = sz\<rparr>))"
proof -
  from assms(7,8,9) have valid: "valid_name n"
    by (auto simp: assets_named_def list_all_iff)
  have check: "check_sidecar e (argv e ! 2) n sha =
                 Inr (if lower file_sha256 \<noteq> lower sha then mismatch_lines n sha file_sha256 else [])"
    using check_sidecar_valid [OF valid, of e "argv e ! 2" sha] assms(11,12)
    by (simp add: file_sha256_def)
  show ?thesis
  proof (cases "lower file_sha256 = lower sha")
    case True
    with check have "check_sidecar e (argv e ! 2) n sha = Inr []" by simp
    from matched_asset_step [OF assms(5,6) assms(7) [unfolded vc_def] assms(8)
        assms(9) [unfolded vc_def] assms(10) [unfolded vc_def] this [unfolded sha_def]] True
    show ?thesis
      by (simp add: vc_def sha_def sz_def found_line_def)
  next
    case False
    with check
    have "check_sidecar e (argv e ! 2) n sha = Inr (mismatch_lines n sha file_sha256)" by simp
    from matched_asset_step [OF assms(5,6) assms(7) [unfolded vc_def] assms(8)
        assms(9) [unfolded vc_def] assms(10) [unfolded vc_def] this [unfolded sha_def]] False
    show ?thesis
      by (simp add: vc_def sha_def sz_def found_line_def mismatch_lines_def)
  qed
qed

theorem checksum_mismatch_only_warns_witness:
  "exit_status (main (example_run ''v2.6.23'' (Some ''ABCD  CodeSwitch-v2.6.23.AppImage''))) = 0
   \<and> Print ''Warning: SHA256 mismatch for CodeSwitch-v2.6.23.AppImage''
       \<in> set (stdout (main (example_run ''v2.6.23'' (Some ''ABCD  CodeSwitch-v2.6.23.AppImage''))))
   \<and> Print ''  Computed: ba7816bf8f01cfea414140de5dae2223b00361a396177a9cb410ff61f20015ad''
       \<in> set (stdout (main (example_run ''v2.6.23'' (Some ''ABCD  CodeSwitch-v2.6.23.AppImage''))))
   \<and> Print ''  From file: ABCD''
       \<in> set (stdout (main (example_run ''v2.6.23'' (Some ''ABCD  CodeSwitch-v2.6.23.AppImage''))))
   \<and> (\<exists>p m. written (main (example_run ''v2.6.23'' (Some ''ABCD  CodeSwitch-v2.6.23.AppImage'')))
                = Some (p, m)
           \<and> map_of (platforms m) ''linux-x86_64'' = Some linux_entry
           \<and> sha256 linux_entry
               = ''ba7816bf8f01cfea414140de5dae2223b00361a396177a9cb410ff61f20015ad'')
   \<and> platform_step
        (example_run ''v2.6.23''
          (Some ''BA7816BF8F01CFEA414140DE5DAE2223B00361A396177A9CB410FF61F20015AD  CodeSwitch-v2.6.23.AppImage''))
        ''release-assets'' (base_url_of ''2.6.23'') ''linux-x86_64'' linux_config
       = Inr ([Print ''Found linux-x86_64: CodeSwitch-v2.6.23.AppImage (3 bytes)''],
              Some linux_entry)"
proof -
  let ?n = "''CodeSwitch-v2.6.23.AppImage''"
  let ?b1 = "''ABCD  CodeSwitch-v2.6.23.AppImage''"
  let ?b2 = "''BA7816BF8F01CFEA414140DE5DAE2223B00361A396177A9CB410FF61F20015AD  CodeSwitch-v2.6.23.AppImage''"
  let ?e1 = "example_run ''v2.6.23'' (Some ?b1)"
  let ?e2 = "example_run ''v2.6.23'' (Some ?b2)"
  have s1: "file_text ?e1 (argv ?e1 ! 2) (?n @ ''.sha256'') = Some ?b1"
    and s2: "file_text ?e2 (argv ?e2 ! 2) (?n @ ''.sha256'') = Some ?b2"
    by (simp_all add: example_run_sel)
  have t1: "strip ?b1 \<noteq> []" "hd (split_ws (strip ?b1)) = ''ABCD''"
    by (simp_all add: strip_def is_space_def split_ws.simps)
  have t2: "strip ?b2 \<noteq> []"
    "hd (split_ws (strip ?b2)) = ''BA7816BF8F01CFEA414140DE5DAE2223B00361A396177A9CB410FF61F20015AD''"
    by (simp_all add: strip_def is_space_def split_ws.simps)
  have l1: "lower ''ABCD'' \<noteq> lower (compute_sha256 [0x61, 0x62, 0x63])"
    by (simp add: compute_sha256_abc lower_def lower_char_def latin1_upper_def latin1_lower_def)
  have l2: "lower ''BA7816BF8F01CFEA414140DE5DAE2223B00361A396177A9CB410FF61F20015AD''
              = lower (compute_sha256 [0x61, 0x62, 0x63])"
    by (simp add: compute_sha256_abc lower_def lower_char_def latin1_upper_def latin1_lower_def)
  have sz: "get_file_size [0x61, 0x62, 0x63 :: byte] = 3" by (simp add: get_file_size_def)
  have three: "str_of_int 3 = ''3''"
    by (simp add: str_of_int_def str_of_nat.simps digit_char_def)
  note w1 = checksum_mismatch_only_warns [of ?e1 "''linux-x86_64''" linux_config ?n "''Foo''" ?b1,
      unfolded example_run_reached(3,4), OF example_run_reached(1) _ example_run_linux(1,2)
      example_run_named example_run_notes s1 [unfolded example_run_reached(3)] t1(1)]
  note w2 = checksum_mismatch_only_warns [of ?e2 "''linux-x86_64''" linux_config ?n "''Foo''" ?b2,
      unfolded example_run_reached(3,4), OF example_run_reached(1) _ example_run_linux(1,2)
      example_run_named example_run_notes s2 [unfolded example_run_reached(3)] t2(1)]
  have p: "path_exists (example_run v sc) ''release-assets''" for v sc
    by (simp add: example_run_sel)
  have d: "sha256 linux_entry = ''ba7816bf8f01cfea414140de5dae2223b00361a396177a9cb410ff61f20015ad''"
    by (simp add: linux_entry_def compute_sha256_abc)
  from w1 [OF p] w2 [OF p] l1 l2 d show ?thesis
    by (simp add: t1(2) t2(2) example_run_sel sz three linux_entry_def example_run_linux(3)
        compute_sha256_abc)
qed

text \<open>
  C2. The claim: the notes are the body of the section whose heading line is the literal
  text \<open># Code Switch v\<close> followed by the version without its leading \<open>v\<close>, up to the
  next heading or the end; they are empty when no heading matches. The script does so
  for the document of the specification (\<open>example_run_notes\<close>, \<open>extract_notes_unmatched\<close>,
  \<open>extract_notes_absent\<close>), but not in general: it puts the version into the pattern as
  it stands, so a dot matches any character, and it does not require the heading to end
  after the version. Asked for 2.6.2 in release notes that list 2.6.23 first, the run
  returns the notes of 2.6.23, \<open>Foo\<close>, where the claim gives \<open>Bar\<close>; and it takes the
  heading \<open># Code Switch v2x6y2\<close> for the one of 2.6.2.
\<close>

theorem notes_of_longer_version:
  "extract_notes ((example_run ''2.6.2'' None)\<lparr>release_notes := Some prefix_notes\<rparr>) ''2.6.2''
     = Inr ''Foo''
   \<and> (\<exists>p m. written (main ((example_run ''2.6.2'' None)\<lparr>release_notes := Some prefix_notes\<rparr>))
                = Some (p, m)
           \<and> notes_text m = ''Foo'')
   \<and> extract_notes
       ((example_run ''2.6.2'' None)
          \<lparr>release_notes := Some (''# Code Switch v2x6y2'' @ [newline] @ ''Foo'')\<rparr>)
       ''2.6.2''
     = Inr ''Foo''"
  by (simp add: main_def Let_def example_run_def lstrip_chars_def platform_configs_def
      platform_step_def glob_error_def extract_notes_def prefix_notes_def re_search_notes_def
      re_metachars_def version_items_def heading_prefix_def startswith_def newline_def
      strip_def is_space_def)

text \<open>
  C3. Whatever version argument is supplied, the version field of the manifest that is
  written is \<open>v\<close> followed by the argument without its leading \<open>v\<close>s: it starts with
  exactly one \<open>v\<close>. Normalising it again changes nothing, and the arguments \<open>v2.6.23\<close>
  and \<open>2.6.23\<close> both give \<open>v2.6.23\<close>.
\<close>

theorem version_one_leading_v:
  assumes "written (main e) = Some (p, m)"
  shows "version m = ''v'' @ lstrip_chars ''v'' (argv e ! 1)
         \<and> takeWhile (\<lambda>c. c = CHR ''v'') (version m) = ''v''
         \<and> ''v'' @ lstrip_chars ''v'' (version m) = version m
         \<and> (argv e ! 1 = ''v2.6.23'' \<or> argv e ! 1 = ''2.6.23'' \<longrightarrow> version m = ''v2.6.23'')"
proof -
  define vc where "vc = lstrip_chars ''v'' (argv e ! 1)"
  from main_written [OF assms] have v: "version m = ''v'' @ vc" by (simp add: vc_def)
  have "takeWhile (\<lambda>c. c = CHR ''v'') vc = []"
    by (simp add: vc_def lstrip_chars_def takeWhile_dropWhile_same)
  then have one: "takeWhile (\<lambda>c. c = CHR ''v'') (version m) = ''v''"
    by (simp add: v)
  have "lstrip_chars ''v'' (''v'' @ vc) = vc"
    by (simp add: lstrip_chars_def vc_def)
  then have idem: "''v'' @ lstrip_chars ''v'' (version m) = version m"
    by (simp add: v)
  have ex: "argv e ! 1 = ''v2.6.23'' \<or> argv e ! 1 = ''2.6.23'' \<longrightarrow> version m = ''v2.6.23''"
    by (auto simp: v vc_def lstrip_chars_def)
  from v one idem ex show ?thesis by (simp only: vc_def simp_thms)
qed

theorem version_one_leading_v_witness:
  "(\<exists>p m. written (main (example_run ''v2.6.23'' None)) = Some (p, m) \<and> version m = ''v2.6.23''
           \<and> takeWhile (\<lambda>c. c = CHR ''v'') (version m) = ''v'')
   \<and> (\<exists>p m. written (main (example_run ''2.6.23'' None)) = Some (p, m) \<and> version m = ''v2.6.23''
           \<and> takeWhile (\<lambda>c. c = CHR ''v'') (version m) = ''v'')"
proof -
  obtain p1 m1 where w1: "written (main (example_run ''v2.6.23'' None)) = Some (p1, m1)"
    by (simp add: example_run_main [OF _ example_sidecar_absent] lstrip_chars_def)
  obtain p2 m2 where w2: "written (main (example_run ''2.6.23'' None)) = Some (p2, m2)"
    by (simp add: example_run_main [OF _ example_sidecar_absent] lstrip_chars_def)
  from version_one_leading_v [OF w1]
  have "version m1 = ''v2.6.23'' \<and> takeWhile (\<lambda>c. c = CHR ''v'') (version m1) = ''v''"
    by (simp add: example_run_sel lstrip_chars_def)
  moreover from version_one_leading_v [OF w2]
  have "version m2 = ''v2.6.23'' \<and> takeWhile (\<lambda>c. c = CHR ''v'') (version m2) = ''v''"
    by (simp add: example_run_sel lstrip_chars_def)
  ultimately show ?thesis using w1 w2 by blast
qed

text \<open>
  C4. The claim: the exit status is not 0 if and only if fewer than two positional
  arguments are given or the assets directory does not exist, and in every other case the
  run writes the output file and ends with 0. The two error exits are as claimed
  (\<open>main_usage\<close>, \<open>main_no_assets_dir\<close>), and \<open>main_exit_status\<close> says when the status
  is 0. But the version is put into the regular expression without escaping: with the
  version \<open>v2.6.23(rc1\<close>, an existing assets directory and an existing RELEASE\_NOTES.md
  the pattern does not compile, \<open>re.search\<close> raises, and the run ends with status 1 and
  writes no file.
\<close>

theorem unbalanced_version_exit_status:
  "main (example_run ''v2.6.23(rc1'' None) =
     \<lparr>exit_status = 1,
      stdout = [missing_line ''windows-x86_64'', missing_line ''windows-x86_64-installer'',
                missing_line ''darwin-aarch64'', missing_line ''darwin-x86_64'',
                missing_line ''linux-x86_64''],
      written = None\<rparr>"
  by (simp add: main_def Let_def example_run_sel lstrip_chars_def unbalanced_version_notes
      platform_configs_def platform_step_def glob_error_def uncaught_def)

text \<open>
  C5. Take a platform none of whose patterns matches a file of the assets directory, in
  a run that reaches the loop, whose patterns \<open>glob\<close> accepts and whose assets have file
  names. \<open>find_asset\<close> finds nothing, the step of the platform prints one line, the
  warning \<open>Warning: No asset found for\<close> followed by the key of the platform, and stores
  no entry; the line is on the console of the run, the loop goes on to its end, and the
  key of the platform is not among the keys of \<open>platforms\<close> in the manifest; the run ends
  with status 0 when the release notes are read without an exception.
\<close>

theorem missing_platform_absent:
  fixes e :: env
  defines "vc \<equiv> lstrip_chars ''v'' (argv e ! 1)"
  assumes "3 \<le> length (argv e)" and "path_exists e (argv e ! 2)"
    and "(k, cfg) \<in> set (platform_configs vc)"
    and "list_all (\<lambda>pat. glob e (argv e ! 2) pat = []) (patterns cfg)"
    and "assets_named e (argv e ! 2) (platform_configs vc)"
  shows "find_asset e (argv e ! 2) (patterns cfg) = Inr None
       \<and> platform_step e (argv e ! 2) (base_url_of vc) k cfg
           = Inr ([Print (''Warning: No asset found for '' @ k)], None)
       \<and> Print (''Warning: No asset found for '' @ k) \<in> set (stdout (main e))
       \<and> (\<exists>out found.
            scan_platforms e (argv e ! 2) (base_url_of vc) (platform_configs vc) [] []
              = (out, Inr found) \<and> k \<notin> fst ` set found)
       \<and> (\<forall>p m. written (main e) = Some (p, m) \<longrightarrow> k \<notin> fst ` set (platforms m))
       \<and> (\<forall>t. extract_notes e vc = Inr t \<longrightarrow>
             exit_status (main e) = 0 \<and> written (main e) \<noteq> None)"
proof -
  have none: "find_asset e (argv e ! 2) (patterns cfg) = Inr None"
  proof (cases "find_asset e (argv e ! 2) (patterns cfg)")
    case (Inl err)
    with assms(4,6) show ?thesis
      by (auto simp: assets_named_def list_all_iff)
  next
    case (Inr found)
    show ?thesis
    proof (cases found)
      case None
      with Inr show ?thesis by simp
    next
      case (Some a)
      with Inr find_asset_none [OF assms(5), of a] show ?thesis by simp
    qed
  qed
  then have step: "platform_step e (argv e ! 2) (base_url_of vc) k cfg
                     = Inr ([Print (''Warning: No asset found for '' @ k)], None)"
    by (simp add: platform_step_missing missing_line_def)
  obtain out found
    where scan: "scan_platforms e (argv e ! 2) (base_url_of vc) (platform_configs vc) [] []
                  = (out, Inr found)"
    using scan_platforms_completes [OF assms(6)] by blast
  from scan_platforms_lookup [OF scan distinct_platform_keys assms(4)] step
  have lines: "Print (''Warning: No asset found for '' @ k) \<in> set out"
    and absent: "map_of found k = None"
    by auto
  from absent have k: "k \<notin> fst ` set found"
    by (simp add: map_of_eq_None_iff)
  from lines main_stdout_prefix [OF assms(2,3), of out "Inr found"] scan
  have printed: "Print (''Warning: No asset found for '' @ k) \<in> set (stdout (main e))"
    by (auto simp: vc_def)
  have w: "k \<notin> fst ` set (platforms m)" if "written (main e) = Some (p, m)" for p m
    using main_written [OF that] scan k by (auto simp: vc_def)
  have ok: "exit_status (main e) = 0 \<and> written (main e) \<noteq> None"
    if "extract_notes e vc = Inr t" for t
    using main_completes [OF assms(2,3), of out found t] scan that by (simp add: vc_def)
  from none step printed scan k w ok show ?thesis by blast
qed

theorem missing_platform_absent_witness:
  "Print ''Warning: No asset found for windows-x86_64''
     \<in> set (stdout (main (example_run ''v2.6.23'' None)))
   \<and> (\<exists>p m. written (main (example_run ''v2.6.23'' None)) = Some (p, m)
         \<and> ''windows-x86_64'' \<notin> fst ` set (platforms m))
   \<and> exit_status (main (example_run ''v2.6.23'' None)) = 0"
proof -
  let ?e = "example_run ''v2.6.23'' None"
  have vc: "lstrip_chars ''v'' (argv ?e ! 1) = ''2.6.23''"
    by (simp add: example_run_sel lstrip_chars_def)
  have a: "3 \<le> length (argv ?e)" and b: "path_exists ?e (argv ?e ! 2)"
    by (simp_all add: example_run_sel)
  have c: "(''windows-x86_64'',
            \<lparr>patterns = [''CodeSwitch-v2.6.23.exe'', ''CodeSwitch.exe''],
             filename = ''CodeSwitch-v2.6.23.exe''\<rparr>)
           \<in> set (platform_configs (lstrip_chars ''v'' (argv ?e ! 1)))"
    by (simp only: vc) (simp add: platform_configs_def)
  have d: "list_all (\<lambda>pat. glob ?e (argv ?e ! 2) pat = [])
             (patterns \<lparr>patterns = [''CodeSwitch-v2.6.23.exe'', ''CodeSwitch.exe''],
                        filename = ''CodeSwitch-v2.6.23.exe''\<rparr>)"
    by (simp add: example_run_sel)
  have n: "assets_named ?e (argv ?e ! 2) (platform_configs (lstrip_chars ''v'' (argv ?e ! 1)))"
    by (simp only: vc example_run_named)
  obtain p m where w: "written (main ?e) = Some (p, m)"
    by (simp add: example_run_main [OF _ example_sidecar_absent] lstrip_chars_def)
  from missing_platform_absent [OF a b c d n, unfolded vc]
    example_run_notes [of "''v2.6.23''" None] w
  have "Print (''Warning: No asset found for '' @ ''windows-x86_64'') \<in> set (stdout (main ?e))"
    and "''windows-x86_64'' \<notin> fst ` set (platforms m)"
    and "exit_status (main ?e) = 0"
    by blast+
  with w show ?thesis by auto
qed

text \<open>
  C6. For every file, that is for every finite sequence of bytes, the digest of the
  streaming hasher, which reads the file in blocks of 4096 bytes, is the SHA-256 digest
  of the whole content hashed in one pass, and it is a string of lowercase hexadecimal
  digits. The digest in one pass is stated twice: as hashlib computes it from one
  \<open>update\<close> with the whole content, and as the standard defines it on the padded
  message.
\<close>

theorem compute_sha256_whole_file:
  "compute_sha256 content = sha256_at_once content
   \<and> compute_sha256 content = sha256_fips content
   \<and> list_all is_lower_hex (compute_sha256 content)"
proof -
  have a: "compute_sha256 content = sha256_at_once content"
    by (simp only: compute_sha256_update sha256_at_once_def)
  have b: "compute_sha256 content = sha256_fips content"
    by (simp only: a sha256_at_once_fips)
  show ?thesis
    by (intro conjI a b compute_sha256_lower)
qed

text \<open>
  C7. Every entry of \<open>platforms\<close> in a manifest that is written has a URL that is not
  empty (the download prefix, a slash and the canonical file name of its platform), a
  digest of exactly 64 lowercase hexadecimal digits, and a size that is not negative.
\<close>

theorem manifest_entries_wellformed:
  fixes e :: env
  defines "vc \<equiv> lstrip_chars ''v'' (argv e ! 1)"
  assumes "written (main e) = Some (p, m)" and "(k, r) \<in> set (platforms m)"
  shows "url r \<noteq> [] \<and> length (sha256 r) = 64 \<and> list_all is_lower_hex (sha256 r)
         \<and> 0 \<le> fsize r
         \<and> (\<exists>cfg. (k, cfg) \<in> set (platform_configs vc)
                 \<and> url r = base_url_of vc @ ''/'' @ filename cfg)"
proof -
  from main_written [OF assms(2)] obtain out
    where "scan_platforms e (argv e ! 2) (base_url_of vc) (platform_configs vc) [] []
             = (out, Inr (platforms m))"
    by (auto simp: vc_def)
  from scan_platforms_entries [OF this assms(3)] obtain cfg lines
    where cfg: "(k, cfg) \<in> set (platform_configs vc)"
      and step: "platform_step e (argv e ! 2) (base_url_of vc) k cfg = Inr (lines, Some r)"
    by auto
  from platform_step_entry [OF step] obtain n
    where r: "r = \<lparr>url = base_url_of vc @ ''/'' @ filename cfg,
                   sha256 = compute_sha256 (file_bytes e (argv e ! 2) n),
                   fsize = get_file_size (file_bytes e (argv e ! 2) n)\<rparr>"
    by auto
  have "url r \<noteq> []" by (simp add: r base_url_of_def)
  moreover have "length (sha256 r) = 64" by (simp add: r length_compute_sha256)
  moreover have "list_all is_lower_hex (sha256 r)" by (simp add: r compute_sha256_lower)
  moreover have "0 \<le> fsize r" by (simp add: r get_file_size_def)
  moreover have "url r = base_url_of vc @ ''/'' @ filename cfg" by (simp add: r)
  ultimately show ?thesis using cfg by blast
qed

theorem manifest_entries_wellformed_witness:
  "\<exists>p m r. written (main (example_run ''v2.6.23'' None)) = Some (p, m)
     \<and> (''linux-x86_64'', r) \<in> set (platforms m)
     \<and> url r \<noteq> [] \<and> length (sha256 r) = 64 \<and> list_all is_lower_hex (sha256 r) \<and> 0 \<le> fsize r"
proof -
  let ?e = "example_run ''v2.6.23'' None"
  let ?r = "\<lparr>url = base_url_of ''2.6.23'' @ ''/CodeSwitch-v2.6.23.AppImage'',
             sha256 = compute_sha256 [0x61, 0x62, 0x63], fsize = 3\<rparr>"
  let ?m = "\<lparr>version = ''v2.6.23'', pub_date = ''2026-01-01T00:00:00+00:00'',
             notes_text = ''Foo'', platforms = [(''linux-x86_64'', ?r)]\<rparr>"
  have w: "written (main ?e) = Some (''latest.json'', ?m)"
    by (simp add: example_run_main [OF _ example_sidecar_absent] lstrip_chars_def)
  have i: "(''linux-x86_64'', ?r) \<in> set (platforms ?m)" by simp
  from manifest_entries_wellformed [OF w i] w i show ?thesis by blast
qed

text \<open>
  C8. For an asset file named \<open>x\<close>, the sidecar file that is looked up is \<open>x\<close> with
  \<open>.sha256\<close> appended after the extension that \<open>x\<close> has: the extension is kept. The
  outcome of the check depends on the file system through that one file only.
\<close>

theorem sidecar_name_appends_suffix:
  assumes "valid_name x"
  shows "with_suffix x (path_suffix x @ ''.sha256'') = Inr (x @ ''.sha256'')
       \<and> check_sidecar e d x sha =
           (case file_text e d (x @ ''.sha256'') of
              None \<Rightarrow> Inr []
            | Some text \<Rightarrow>
                if strip text = [] then Inr []
                else if lower (hd (split_ws (strip text))) \<noteq> lower sha
                     then Inr (mismatch_lines x sha (hd (split_ws (strip text))))
                     else Inr [])"
  using with_suffix_appends [OF assms] check_sidecar_valid [OF assms] by simp

theorem sidecar_name_appends_suffix_witness:
  "valid_name ''CodeSwitch-v2.6.23.AppImage''
   \<and> with_suffix ''CodeSwitch-v2.6.23.AppImage'' (path_suffix ''CodeSwitch-v2.6.23.AppImage'' @ ''.sha256'')
       = Inr ''CodeSwitch-v2.6.23.AppImage.sha256''
   \<and> path_suffix ''CodeSwitch-v2.6.23.AppImage'' = ''.AppImage''"
proof -
  have v: "valid_name ''CodeSwitch-v2.6.23.AppImage''" by (simp add: valid_name_def)
  have s: "path_suffix ''CodeSwitch-v2.6.23.AppImage'' = ''.AppImage''"
    by (simp add: path_suffix_def rfind_def)
  from sidecar_name_appends_suffix [OF v] v s show ?thesis by simp
qed

text \<open>
  C9, as the script behaves. When the sidecar file of a matched asset exists and holds
  nothing but white space, the script prints no warning about it: the step of the platform
  prints the line of the found asset only. The run continues, ends with status 0 (when the
  assets have file names and the release notes are read without an exception) and the
  manifest holds the entry of the platform.
\<close>

theorem blank_sidecar_silent:
  fixes e :: env and n body :: string
  defines "vc \<equiv> lstrip_chars ''v'' (argv e ! 1)"
    and "sha \<equiv> compute_sha256 (file_bytes e (argv e ! 2) n)"
    and "sz \<equiv> get_file_size (file_bytes e (argv e ! 2) n)"
  assumes "3 \<le> length (argv e)" and "path_exists e (argv e ! 2)"
    and "(k, cfg) \<in> set (platform_configs vc)"
    and "find_asset e (argv e ! 2) (patterns cfg) = Inr (Some n)"
    and "assets_named e (argv e ! 2) (platform_configs vc)"
    and "extract_notes e vc = Inr t"
    and "file_text e (argv e ! 2) (n @ ''.sha256'') = Some body"
    and "strip body = []"
  shows "platform_step e (argv e ! 2) (base_url_of vc) k cfg =
           Inr ([found_line k n sz],
                Some \<lparr>url = base_url_of vc @ ''/'' @ filename cfg, sha256 = sha, fsize = sz\<rparr>)
       \<and> exit_status (main e) = 0
       \<and> (\<exists>p m. written (main e) = Some (p, m) \<and>
             map_of (platforms m) k =
               Some \<lparr>url = base_url_of vc @ ''/'' @ filename cfg, sha256 = sha, fsize = sz\<rparr>)"
proof -
  from assms(6,7,8) have valid: "valid_name n"
    by (auto simp: assets_named_def list_all_iff)
  have "check_sidecar e (argv e ! 2) n sha = Inr []"
    using check_sidecar_valid [OF valid, of e "argv e ! 2" sha] assms(10,11) by simp
  from matched_asset_step [OF assms(4,5) assms(6) [unfolded vc_def] assms(7)
      assms(8) [unfolded vc_def] assms(9) [unfolded vc_def] this [unfolded sha_def]]
  show ?thesis
    by (simp add: vc_def sha_def sz_def)
qed

theorem blank_sidecar_silent_witness:
  "platform_step (example_run ''v2.6.23'' (Some blank)) ''release-assets'' (base_url_of ''2.6.23'')
       ''linux-x86_64'' linux_config
     = Inr ([found_line ''linux-x86_64'' ''CodeSwitch-v2.6.23.AppImage'' 3], Some linux_entry)
   \<and> exit_status (main (example_run ''v2.6.23'' (Some blank))) = 0
   \<and> (\<exists>p m. written (main (example_run ''v2.6.23'' (Some blank))) = Some (p, m)
           \<and> map_of (platforms m) ''linux-x86_64'' = Some linux_entry)"
proof -
  let ?n = "''CodeSwitch-v2.6.23.AppImage''"
  let ?e = "example_run ''v2.6.23'' (Some blank)"
  have s: "file_text ?e ''release-assets'' (?n @ ''.sha256'') = Some blank"
    by (simp add: example_run_sel)
  have sz: "get_file_size [0x61, 0x62, 0x63 :: byte] = 3" by (simp add: get_file_size_def)
  have p: "path_exists ?e ''release-assets''" by (simp add: example_run_sel)
  note w = blank_sidecar_silent [of ?e "''linux-x86_64''" linux_config ?n "''Foo''" blank,
      unfolded example_run_reached(3,4), OF example_run_reached(1) p example_run_linux(1,2)
      example_run_named example_run_notes s strip_blank]
  then show ?thesis
    by (simp add: example_run_sel sz linux_entry_def example_run_linux(3))
qed

text \<open>
  The claim C9 as it was stated asks for a warning on the console. The run with a sidecar
  file of a space and a line feed prints, for its platform, the line of the found asset,
  which is no warning; the warnings of the whole run are those of the four platforms
  without an asset.
\<close>

theorem blank_sidecar_no_warning:
  "platform_step (example_run ''v2.6.23'' (Some blank)) ''release-assets'' (base_url_of ''2.6.23'')
       ''linux-x86_64'' linux_config
     = Inr ([found_line ''linux-x86_64'' ''CodeSwitch-v2.6.23.AppImage'' 3], Some linux_entry)
   \<and> \<not> is_warning (found_line ''linux-x86_64'' ''CodeSwitch-v2.6.23.AppImage'' 3)
   \<and> filter is_warning (stdout (main (example_run ''v2.6.23'' (Some blank))))
       = [missing_line ''windows-x86_64'', missing_line ''windows-x86_64-installer'',
          missing_line ''darwin-aarch64'', missing_line ''darwin-x86_64'']"
proof -
  let ?e = "example_run ''v2.6.23'' (Some blank)"
  have c: "check_sidecar ?e ''release-assets'' ''CodeSwitch-v2.6.23.AppImage''
             (compute_sha256 [0x61, 0x62, 0x63]) = Inr []"
    by (simp add: check_sidecar_valid valid_name_def example_run_sel strip_blank)
  have step: "platform_step ?e ''release-assets'' (base_url_of ''2.6.23'') ''linux-x86_64'' linux_config
     = Inr ([found_line ''linux-x86_64'' ''CodeSwitch-v2.6.23.AppImage'' 3], Some linux_entry)"
    by (simp add: platform_step_def example_run_linux c example_run_sel get_file_size_def
        linux_entry_def)
  have nw: "\<not> is_warning (found_line ''linux-x86_64'' ''CodeSwitch-v2.6.23.AppImage'' 3)"
    by (simp add: is_warning_def found_line_def startswith_def)
  have out: "filter is_warning (stdout (main ?e))
       = [missing_line ''windows-x86_64'', missing_line ''windows-x86_64-installer'',
          missing_line ''darwin-aarch64'', missing_line ''darwin-x86_64'']"
    by (simp add: example_run_main [OF _ c] lstrip_chars_def nw)
       (simp add: is_warning_def missing_line_def startswith_def newline_def)
  from step nw out show ?thesis by simp
qed

text \<open>
  C10. When the sidecar file of an asset exists and its text strips to the empty string,
  the first token is not taken: the check raises no IndexError and prints nothing, and
  the check, the step of the platform and the whole run (console, exit status and the
  manifest written, so the digest, the size and the URL of the entry) are those of the
  same surroundings without the sidecar file.
\<close>

theorem blank_sidecar_as_absent:
  assumes "file_text e d (n @ ''.sha256'') = Some body" and "strip body = []"
  shows "check_sidecar e d n sha \<noteq> Inl IndexError
       \<and> (valid_name n \<longrightarrow> check_sidecar e d n sha = Inr [])
       \<and> check_sidecar e d n sha = check_sidecar (without_file e d (n @ ''.sha256'')) d n sha
       \<and> platform_step e d b k cfg = platform_step (without_file e d (n @ ''.sha256'')) d b k cfg
       \<and> main e = main (without_file e d (n @ ''.sha256''))"
proof -
  have "valid_name n \<longrightarrow> check_sidecar e d n sha = Inr []"
    using assms by (simp add: check_sidecar_valid)
  with check_sidecar_no_IndexError [of e d n sha]
    check_sidecar_without_blank [OF assms, of d n sha]
    platform_step_without_blank [OF assms, of d b k cfg]
    main_without_blank [OF assms]
  show ?thesis by simp
qed

theorem blank_sidecar_as_absent_witness:
  "strip blank = []
   \<and> check_sidecar (example_run ''v2.6.23'' (Some blank)) ''release-assets''
        ''CodeSwitch-v2.6.23.AppImage'' (compute_sha256 [0x61, 0x62, 0x63]) = Inr []
   \<and> main (example_run ''v2.6.23'' (Some blank))
       = main (without_file (example_run ''v2.6.23'' (Some blank)) ''release-assets''
                 ''CodeSwitch-v2.6.23.AppImage.sha256'')"
proof -
  let ?e = "example_run ''v2.6.23'' (Some blank)"
  have s: "file_text ?e ''release-assets'' (''CodeSwitch-v2.6.23.AppImage'' @ ''.sha256'') = Some blank"
    by (simp add: example_run_sel)
  have v: "valid_name ''CodeSwitch-v2.6.23.AppImage''" by (simp add: valid_name_def)
  from blank_sidecar_as_absent [OF s strip_blank] v strip_blank show ?thesis by simp
qed

end
